theory Spec2Isabelle
  imports Complex_Main "HOL-Library.Signed_Division" "HOL-Library.Multiset"
begin

section \<open>Go machine arithmetic and runtime panics\<close>

text \<open>
  The program is Go. Its \<open>int\<close> is the 64-bit two's complement integer of the
  platforms the demo runs on: multiplication wraps around, \<open>/\<close> and \<open>%\<close> truncate
  towards zero and panic on a zero divisor, and indexing a slice out of range panics.
  A panic that nobody recovers ends the process, so every function that can panic
  returns a sum whose left side is the panic.
\<close>

datatype go_panic =
    DivideByZero
  | IndexOutOfRange
  | NilDereference
  | MakeSliceOutOfRange

definition max_int64 :: int where
  "max_int64 = 9223372036854775807"

definition wrap64 :: "int \<Rightarrow> int" where
  "wrap64 x = (x + 9223372036854775808) mod 18446744073709551616 - 9223372036854775808"

definition go_quot :: "int \<Rightarrow> int \<Rightarrow> go_panic + int" where
  "go_quot a b = (if b = 0 then Inl DivideByZero else Inr (wrap64 (a sdiv b)))"

definition go_rem :: "int \<Rightarrow> int \<Rightarrow> go_panic + int" where
  "go_rem a b = (if b = 0 then Inl DivideByZero else Inr (a smod b))"

definition go_index :: "'a list \<Rightarrow> int \<Rightarrow> go_panic + 'a" where
  "go_index xs i =
     (if 0 \<le> i \<and> i < int (length xs) then Inr (xs ! nat i) else Inl IndexOutOfRange)"

definition go_len :: "'a list \<Rightarrow> int" where
  "go_len xs = int (length xs)"

section \<open>The enumerator\<close>

text \<open>
  \<^verbatim>\<open>
  func UnravelIndex(index1 int, dim []int) []int {
      indexN := make([]int, len(dim))
      denom := 1
      for n := 0; n < len(dim); n++ {
          indexN[n] = (index1 / denom) % (dim[n])
          denom *= dim[n]
      }
      return indexN
  }
  \<close>
  The loop walks \<open>dim\<close> from position 0 and fills \<open>indexN\<close> at the same position, so
  the model recurses over the rest of \<open>dim\<close> with \<open>denom\<close> as the loop variable and
  returns the components in position order.
\<close>

fun UnravelIndex_loop :: "int \<Rightarrow> int \<Rightarrow> int list \<Rightarrow> go_panic + int list" where
  "UnravelIndex_loop index1 denom [] = Inr []"
| "UnravelIndex_loop index1 denom (d # ds) =
     (case go_quot index1 denom of
        Inl p \<Rightarrow> Inl p
      | Inr q \<Rightarrow>
         (case go_rem q d of
            Inl p \<Rightarrow> Inl p
          | Inr r \<Rightarrow>
             (case UnravelIndex_loop index1 (wrap64 (denom * d)) ds of
                Inl p \<Rightarrow> Inl p
              | Inr rest \<Rightarrow> Inr (r # rest))))"

definition UnravelIndex :: "int \<Rightarrow> int list \<Rightarrow> go_panic + int list" where
  "UnravelIndex index1 dims = UnravelIndex_loop index1 1 dims"

text \<open>
  The specification's side of the enumerator: the closed form of one component, the
  re-encoding of a tuple through the dimension strides, and the box of tuples that lie
  inside the cardinalities.
\<close>

fun ravel :: "int list \<Rightarrow> int list \<Rightarrow> int" where
  "ravel (x # xs) (d # ds) = x + d * ravel xs ds"
| "ravel _ _ = 0"

definition in_box :: "int list \<Rightarrow> int list \<Rightarrow> bool" where
  "in_box dims idx \<longleftrightarrow> length idx = length dims \<and> list_all2 (\<lambda>x d. 0 \<le> x \<and> x < d) idx dims"

text \<open>
  A dimension list the program can hold: every cardinality is positive and the size of
  the iteration space, the product of the cardinalities, is representable as an \<open>int\<close>
  (the data model requires that it be representable without overflow).
\<close>

definition dims_ok :: "int list \<Rightarrow> bool" where
  "dims_ok dims \<longleftrightarrow> list_all (\<lambda>d. 0 < d) dims \<and> prod_list dims \<le> max_int64"

text \<open>The unbounded-integer reading of the loop, used to reason about it.\<close>

fun unravel :: "int \<Rightarrow> int list \<Rightarrow> int list" where
  "unravel q [] = []"
| "unravel q (d # ds) = (q mod d) # unravel (q div d) ds"

section \<open>Query sets\<close>

text \<open>
  Go's \<open>interface{}\<close> values that the program stores: \<open>nil\<close> (a slot that
  \<open>make\<close> created and nothing filled) or an \<open>int\<close>.
\<close>

datatype iface = IfaceNil | IfaceInt int

text \<open>
  \<^verbatim>\<open>
  type QuerySet struct {
      Name       string
      Format     string
      ArgSets    [][]int
      setup      string
      teardown   string
      dim        int
      iterations int
      lengths    []int
  }
  type QueryResult struct {
      raw     string
      inputs  []interface{}
      outputs []interface{}
      err     error
  }
  \<close>
  The fields \<open>setup\<close>, \<open>teardown\<close> and \<open>dim\<close> are \<open>setup_text\<close>, \<open>teardown_text\<close>
  and \<open>dim_count\<close> here. An \<open>error\<close> is its message; \<open>None\<close> is Go's \<open>nil\<close>.
\<close>

record QuerySet =
  Name :: string
  Format :: string
  ArgSets :: "int list list"
  setup_text :: string
  teardown_text :: string
  dim_count :: int
  iterations :: int
  lengths :: "int list"

record QueryResult =
  raw :: string
  inputs :: "iface list"
  outputs :: "iface list"
  err :: "string option"

text \<open>The zero value of the struct, what \<open>var qs QuerySet\<close> and \<open>QuerySet{}\<close> give.\<close>

definition zero_QuerySet :: QuerySet where
  "zero_QuerySet =
     \<lparr>Name = [], Format = [], ArgSets = [], setup_text = [], teardown_text = [],
      dim_count = 0, iterations = 0, lengths = []\<rparr>"

text \<open>
  \<^verbatim>\<open>
  func NewQuerySet(name, fmt string, argsets [][]int) QuerySet {
      qs := QuerySet{}
      qs.Name = name
      qs.Format = fmt
      qs.ArgSets = argsets
      qs.dim = len(argsets)
      iterations := 1
      lens := make([]int, len(argsets))
      for n := 0; n < len(argsets); n++ {
          iterations *= len(argsets[n])
          lens[n] = len(argsets[n])
      }
      qs.iterations = iterations
      qs.lengths = lens
      return qs
  }
  \<close>
  The loop's two variables are computed by \<open>iterations_loop\<close> (the running product,
  which wraps around) and by the map that fills \<open>lens\<close>.
\<close>

fun iterations_loop :: "int \<Rightarrow> int list list \<Rightarrow> int" where
  "iterations_loop iters [] = iters"
| "iterations_loop iters (a # as) = iterations_loop (wrap64 (iters * go_len a)) as"

definition NewQuerySet :: "string \<Rightarrow> string \<Rightarrow> int list list \<Rightarrow> QuerySet" where
  "NewQuerySet name fmt argsets =
     zero_QuerySet
       \<lparr>Name := name, Format := fmt, ArgSets := argsets, dim_count := go_len argsets,
        iterations := iterations_loop 1 argsets, lengths := map go_len argsets\<rparr>"

definition NewRegisterQuerySet ::
  "string \<Rightarrow> string \<Rightarrow> string \<Rightarrow> string \<Rightarrow> int list list \<Rightarrow> QuerySet" where
  "NewRegisterQuerySet name fmt setup_q teardown_q argsets =
     (NewQuerySet name fmt argsets)\<lparr>setup_text := setup_q, teardown_text := teardown_q\<rparr>"

text \<open>
  \<^verbatim>\<open>
  func (s *QuerySet) QueryN(n int) string {
      inds := UnravelIndex(n, s.lengths)
      args := make([]interface{}, s.dim)
      for k := 0; k < s.dim; k++ {
          args[k] = s.ArgSets[k][inds[k]]
      }
      return fmt.Sprintf(s.Format+"\n", args...)
  }
  \<close>
  \<open>fmt.Sprintf\<close> belongs to Go's library, not to this program, and is a parameter
  \<open>sprintf\<close> of the model. \<open>query_args\<close> is the loop over \<open>k\<close>: \<open>ks\<close> are the values of
  \<open>k\<close> still to come, and each of the three index expressions can panic.
\<close>

fun query_args :: "QuerySet \<Rightarrow> int list \<Rightarrow> int list \<Rightarrow> go_panic + iface list" where
  "query_args s inds [] = Inr []"
| "query_args s inds (k # ks) =
     (case go_index (ArgSets s) k of
        Inl p \<Rightarrow> Inl p
      | Inr row \<Rightarrow>
         (case go_index inds k of
            Inl p \<Rightarrow> Inl p
          | Inr i \<Rightarrow>
             (case go_index row i of
                Inl p \<Rightarrow> Inl p
              | Inr v \<Rightarrow>
                 (case query_args s inds ks of
                    Inl p \<Rightarrow> Inl p
                  | Inr rest \<Rightarrow> Inr (IfaceInt v # rest)))))"

definition loop_range :: "int \<Rightarrow> int list" where
  "loop_range n = map int [0..<nat n]"

definition render_args :: "QuerySet \<Rightarrow> int \<Rightarrow> go_panic + iface list" where
  "render_args s n =
     (case UnravelIndex n (lengths s) of
        Inl p \<Rightarrow> Inl p
      | Inr inds \<Rightarrow>
         if dim_count s < 0 then Inl MakeSliceOutOfRange
         else query_args s inds (loop_range (dim_count s)))"

definition QueryN ::
  "(string \<Rightarrow> iface list \<Rightarrow> string) \<Rightarrow> QuerySet \<Rightarrow> int \<Rightarrow> go_panic + string" where
  "QueryN sprintf s n =
     (case render_args s n of
        Inl p \<Rightarrow> Inl p
      | Inr args \<Rightarrow> Inr (sprintf (Format s @ ''\<newline>'') args))"

text \<open>
  \<^verbatim>\<open>
  func (s *QuerySet) QueryResultN(n int) QueryResult {
      qr := QueryResult{}
      inds := UnravelIndex(n, s.lengths)
      qr.inputs = make([]interface{}, s.dim)
      qr.outputs = make([]interface{}, 1)
      for k := 0; k < s.dim; k++ {
          qr.inputs[k] = s.ArgSets[k][inds[k]]
      }
      qr.raw = fmt.Sprintf(s.Format+"\n", qr.inputs...)
      return qr
  }
  \<close>
\<close>

definition QueryResultN ::
  "(string \<Rightarrow> iface list \<Rightarrow> string) \<Rightarrow> QuerySet \<Rightarrow> int \<Rightarrow> go_panic + QueryResult" where
  "QueryResultN sprintf s n =
     (case render_args s n of
        Inl p \<Rightarrow> Inl p
      | Inr args \<Rightarrow>
          Inr \<lparr>raw = sprintf (Format s @ ''\<newline>'') args, inputs = args,
               outputs = [IfaceNil], err = None\<rparr>)"

text \<open>
  The Cartesian product of the argument grids, as the list of all combinations with the
  first dimension varying fastest, and the arguments a tuple of offsets selects.
\<close>

fun cartesian :: "'a list list \<Rightarrow> 'a list list" where
  "cartesian [] = [[]]"
| "cartesian (xs # xss) = concat (map (\<lambda>rest. map (\<lambda>x. x # rest) xs) (cartesian xss))"

fun args_at :: "'a list list \<Rightarrow> int list \<Rightarrow> 'a list" where
  "args_at (xs # xss) (i # is) = xs ! nat i # args_at xss is"
| "args_at _ _ = []"

definition grids_ok :: "int list list \<Rightarrow> bool" where
  "grids_ok argsets \<longleftrightarrow> prod_list (map go_len argsets) \<le> max_int64"

subsection \<open>The formatter\<close>

text \<open>
  A model of \<open>fmt.Sprintf\<close> for the verbs the query catalogue uses, after the Go
  library's documentation: \<open>%d\<close> and \<open>%v\<close> print the next operand in decimal, \<open>%%\<close>
  prints a percent sign, a verb with no operand left prints \<open>%!d(MISSING)\<close>, operands
  that no verb consumed are listed as \<open>%!(EXTRA int=1992)\<close>, and a verb that does not
  apply to its operand prints \<open>%!s(int=1992)\<close>. Flags, widths and the other verbs
  that do apply to integers are outside this model. The theorems about rendering hold
  for every formatter; this one instantiates them.
\<close>

fun show_nat :: "nat \<Rightarrow> string" where
  "show_nat n =
     (if n < 10 then [''0123456789'' ! n]
      else show_nat (n div 10) @ [''0123456789'' ! (n mod 10)])"

definition show_int :: "int \<Rightarrow> string" where
  "show_int i = (if i < 0 then CHR ''-'' # show_nat (nat (- i)) else show_nat (nat i))"

fun show_operand :: "iface \<Rightarrow> string" where
  "show_operand IfaceNil = ''<nil>''"
| "show_operand (IfaceInt i) = ''int='' @ show_int i"

fun apply_verb :: "char \<Rightarrow> iface \<Rightarrow> string" where
  "apply_verb v (IfaceInt i) =
     (if v = CHR ''d'' \<or> v = CHR ''v'' then show_int i
      else ''%!'' @ [v] @ ''(int='' @ show_int i @ '')'')"
| "apply_verb v IfaceNil =
     (if v = CHR ''v'' then ''<nil>'' else ''%!'' @ [v] @ ''(<nil>)'')"

fun join_operands :: "string list \<Rightarrow> string" where
  "join_operands [] = []"
| "join_operands [x] = x"
| "join_operands (x # y # ys) = x @ '', '' @ join_operands (y # ys)"

definition extra_operands :: "iface list \<Rightarrow> string" where
  "extra_operands args =
     (if args = [] then []
      else ''%!(EXTRA '' @ join_operands (map show_operand args) @ '')'')"

fun Sprintf :: "string \<Rightarrow> iface list \<Rightarrow> string" where
  "Sprintf [] args = extra_operands args"
| "Sprintf (c # cs) args =
     (if c \<noteq> CHR ''%'' then c # Sprintf cs args
      else
        (case cs of
           [] \<Rightarrow> ''%!(NOVERB)'' @ extra_operands args
         | v # rest \<Rightarrow>
            if v = CHR ''%'' then CHR ''%'' # Sprintf rest args
            else
              (case args of
                 [] \<Rightarrow> ''%!'' @ [v] @ ''(MISSING)'' @ Sprintf rest []
               | a # as \<Rightarrow> apply_verb v a @ Sprintf rest as)))"

text \<open>
  The substitution slots of a template: the verbs that consume an operand.
\<close>

fun template_slots :: "string \<Rightarrow> nat" where
  "template_slots [] = 0"
| "template_slots (c # cs) =
     (if c \<noteq> CHR ''%'' then template_slots cs
      else
        (case cs of
           [] \<Rightarrow> 0
         | v # rest \<Rightarrow> (if v = CHR ''%'' then 0 else 1) + template_slots rest))"

section \<open>The batch pipeline\<close>

subsection \<open>The collaborators\<close>

text \<open>
  \<open>RunSumMultiBatch\<close> talks to the query engine through \<open>s.Client.Query\<close>, to the file
  system, to the clock and to Go's scheduler. None of them is code of this program; they
  are the fields of an environment.

  A \<open>reply\<close> is what one \<open>Client.Query\<close> call gives back: the error, and what
  \<open>response.Results()\<close> yields when the worker ranges over it, the \<open>Sum\<close> of each
  result in order, or the panic of dereferencing a \<open>nil\<close> response.

  \<open>choices\<close> drives the order in which the records of concurrently processed batches
  reach the collector (see \<open>arrival\<close>); \<open>write_err k\<close> is the error of the write
  that follows \<open>k\<close> successful ones.
\<close>

record reply =
  reply_sums :: "go_panic + int list"
  reply_err :: "string option"

record env =
  mkdir_err :: "string option"
  create_err :: "string option"
  query :: "string \<Rightarrow> reply"
  write_err :: "nat \<Rightarrow> string option"
  choices :: "nat list"
  now_unix :: int
  elapsed :: real
  NumLineOrders :: nat

text \<open>
  \<^verbatim>\<open>
  type BenchmarkResult struct {
      Name        string
      Iterations  int
      Concurrency int
      BatchSize   int
      Seconds     float64
      ColumnCount uint64
      Timestamp   int32
  }
  \<close>
  The field \<open>Name\<close> is \<open>ResultName\<close> here. \<open>Seconds\<close> is either the constant \<open>-1\<close> or
  the elapsed time the clock reports, and the model computes with neither.
\<close>

record BenchmarkResult =
  ResultName :: string
  Iterations :: int
  Concurrency :: int
  BatchSize :: int
  Seconds :: real
  ColumnCount :: nat
  Timestamp :: int

subsection \<open>The producer\<close>

text \<open>
  \<^verbatim>\<open>
  go func() {
      qBatch := make([]QueryResult, 0, batchSize)
      batchCount := 0
      for n := 0; n < qs.iterations; n++ {
          qq := qs.QueryResultN(n)
          qBatch = append(qBatch, qq)
          batchCount++
          if batchCount == batchSize {
              batches <- qBatch
              batchCount = 0
              qBatch = make([]QueryResult, 0, batchSize)
          }
      }
      if batchCount > 0 {
          batches <- qBatch
      }
      close(batches)
  }()
  \<close>
  The model gives the producer's channel operations in program order. The channel is
  unbuffered: each send completes when a worker receives the batch. \<open>make\<close> panics
  on a negative capacity. \<open>batchCount\<close> never exceeds \<open>n + 1 \<le> qs.iterations\<close>, so it
  cannot overflow.
\<close>

datatype 'a chan_op = Send 'a | Close

fun producer_loop ::
  "(int \<Rightarrow> go_panic + QueryResult) \<Rightarrow> int \<Rightarrow> int list \<Rightarrow> QueryResult list \<Rightarrow> int
     \<Rightarrow> go_panic + QueryResult list chan_op list" where
  "producer_loop qrn batchSize [] qBatch batchCount =
     Inr ((if batchCount > 0 then [Send qBatch] else []) @ [Close])"
| "producer_loop qrn batchSize (n # ns) qBatch batchCount =
     (case qrn n of
        Inl p \<Rightarrow> Inl p
      | Inr qq \<Rightarrow>
          if batchCount + 1 = batchSize then
            (case producer_loop qrn batchSize ns [] 0 of
               Inl p \<Rightarrow> Inl p
             | Inr ops \<Rightarrow> Inr (Send (qBatch @ [qq]) # ops))
          else producer_loop qrn batchSize ns (qBatch @ [qq]) (batchCount + 1))"

text \<open>The record \<open>QueryResultN\<close> builds for an index inside the iteration space.\<close>

definition record_at :: "(string \<Rightarrow> iface list \<Rightarrow> string) \<Rightarrow> QuerySet \<Rightarrow> int \<Rightarrow> QueryResult" where
  "record_at sprintf qs n =
     (let args = map IfaceInt (args_at (ArgSets qs) (unravel n (map go_len (ArgSets qs))))
      in \<lparr>raw = sprintf (Format qs @ ''\<newline>'') args, inputs = args,
          outputs = [IfaceNil], err = None\<rparr>)"

definition producer ::
  "(string \<Rightarrow> iface list \<Rightarrow> string) \<Rightarrow> QuerySet \<Rightarrow> int
     \<Rightarrow> go_panic + QueryResult list chan_op list" where
  "producer sprintf qs batchSize =
     (if batchSize < 0 then Inl MakeSliceOutOfRange
      else producer_loop (QueryResultN sprintf qs) batchSize (loop_range (iterations qs)) [] 0)"

fun sent :: "'a chan_op list \<Rightarrow> 'a list" where
  "sent [] = []"
| "sent (Send x # ops) = x # sent ops"
| "sent (Close # ops) = sent ops"

text \<open>
  The specification's partition of a list into consecutive batches of \<open>n\<close> elements, the
  last one possibly shorter.
\<close>

function chunks :: "nat \<Rightarrow> 'a list \<Rightarrow> 'a list list" where
  "chunks n xs = (if n = 0 \<or> xs = [] then [] else take n xs # chunks n (drop n xs))"
  by pat_completeness auto
termination
  by (relation "measure (\<lambda>(n, xs). length xs)") auto

declare chunks.simps [simp del]

subsection \<open>The workers\<close>

text \<open>
  \<^verbatim>\<open>
  func (s *Server) runRawSumBatchQuery(batches <-chan []QueryResult,
          results chan<- QueryResult, wg *sync.WaitGroup) {
      defer wg.Done()
      for batch := range batches {
          raw := ""
          for _, q := range batch {
              raw += q.raw
          }
          response, err := s.Client.Query(s.Index.RawQuery(raw), nil)
          if err != nil {
              fmt.Printf("in runRawSumBatchQuery: %vfailed with: %v\n", raw, err)
              results <- QueryResult{raw, []interface{}{}, []interface{}{}, err}
          }
          for n, res := range response.Results() {
              batch[n].outputs = []interface{}{int(res.Sum)}
              results <- batch[n]
          }
      }
  }
  \<close>
  \<open>worker_batch\<close> is one turn of the outer loop: what the worker sends on \<open>results\<close>
  for one batch, in order, ending in its panic if it panics. After the error branch the
  loop body goes on to \<open>response.Results()\<close>. \<open>collate\<close> is the inner loop; \<open>batch[n]\<close>
  panics when there are more results than records.
\<close>

datatype worker_event = Rec QueryResult | WorkerPanic go_panic

fun collate :: "QueryResult list \<Rightarrow> int list \<Rightarrow> worker_event list" where
  "collate batch [] = []"
| "collate [] (s # totals) = [WorkerPanic IndexOutOfRange]"
| "collate (q # batch) (s # totals) = Rec (q\<lparr>outputs := [IfaceInt s]\<rparr>) # collate batch totals"

definition batch_text :: "QueryResult list \<Rightarrow> string" where
  "batch_text batch = concat (map raw batch)"

definition worker_batch :: "(string \<Rightarrow> reply) \<Rightarrow> QueryResult list \<Rightarrow> worker_event list" where
  "worker_batch ask batch =
     (case reply_err (ask (batch_text batch)) of
        None \<Rightarrow> []
      | Some e \<Rightarrow> [Rec \<lparr>raw = batch_text batch, inputs = [], outputs = [], err = Some e\<rparr>])
     @ (case reply_sums (ask (batch_text batch)) of
          Inl p \<Rightarrow> [WorkerPanic p]
        | Inr totals \<Rightarrow> collate batch totals)"

text \<open>
  With \<open>concurrency\<close> workers the records of different batches reach the collector in an
  order the scheduler picks; within a batch they keep the worker's order. \<open>interleave\<close>
  merges the per-batch sequences: each choice selects one of the sequences that still
  has events and takes its first event; when the choices run out the rest follows batch
  by batch. Every list of choices gives an interleaving, and the empty list gives the
  order of a single worker. With no worker (\<open>concurrency \<le> 0\<close>) the wait group is done
  at once, \<open>results\<close> is closed and the collector receives nothing.
\<close>

fun interleave :: "nat list \<Rightarrow> 'a list list \<Rightarrow> 'a list" where
  "interleave [] xss = concat xss"
| "interleave (c # cs) xss =
     (case filter (\<lambda>xs. xs \<noteq> []) xss of
        [] \<Rightarrow> []
      | ys # yss \<Rightarrow>
          hd ((ys # yss) ! (c mod length (ys # yss)))
            # interleave cs ((ys # yss)[c mod length (ys # yss)
                               := tl ((ys # yss) ! (c mod length (ys # yss)))]))"

definition arrival :: "env \<Rightarrow> QueryResult list chan_op list \<Rightarrow> int \<Rightarrow> worker_event list" where
  "arrival e ops concurrency =
     (if concurrency \<le> 0 then []
      else interleave (choices e) (map (worker_batch (query e)) (sent ops)))"

subsection \<open>The collector and the run\<close>

text \<open>
  \<^verbatim>\<open>
  for res := range results {
      if res.err != nil {
          fmt.Printf("running query: %v\n", res.err)
          return BenchmarkResult{qs.Name, 0, 0, 0, -1, 0, timestamp}
      }
      n, err := f.WriteString(fmt.Sprintf("%v %v\n", res.outputs[0], res.inputs))
      nn += n
      if err != nil {
          fmt.Printf("writing results file: %v\n", err)
          break
      }
  }
  \<close>
  A line of the results file is the pair of \<open>res.outputs[0]\<close> and \<open>res.inputs\<close>. A
  worker's panic ends the process when it is reached. The collector stops receiving at
  the first error record and at the first failed write, and what the workers would
  send afterwards is never received.
\<close>

type_synonym result_line = "iface \<times> iface list"

datatype collected =
    Drained "result_line list"
  | WriteFailed "result_line list" string
  | QueryFailed "result_line list" string
  | Died go_panic

fun collect :: "(nat \<Rightarrow> string option) \<Rightarrow> worker_event list \<Rightarrow> result_line list \<Rightarrow> collected" where
  "collect werr [] lines = Drained lines"
| "collect werr (WorkerPanic p # evs) lines = Died p"
| "collect werr (Rec res # evs) lines =
     (case err res of
        Some e \<Rightarrow> QueryFailed lines e
      | None \<Rightarrow>
         (case go_index (outputs res) 0 of
            Inl p \<Rightarrow> Died p
          | Inr out \<Rightarrow>
             (case werr (length lines) of
                Some e \<Rightarrow> WriteFailed lines e
              | None \<Rightarrow> collect werr evs (lines @ [(out, inputs res)]))))"

text \<open>What \<open>RunSumMultiBatch\<close> prints, and what a call leaves behind.\<close>

datatype log_msg =
    LogResultsDir string
  | LogResultsFile string
  | LogSetup string
  | LogRunningQuery string
  | LogWritingFile string
  | LogTeardown string
  | LogWrote

record run_result =
  summary :: BenchmarkResult
  printed :: "log_msg list"
  written :: "result_line list"

datatype outcome = Returned run_result | Crashed go_panic

text \<open>\<open>BenchmarkResult{qs.Name, 0, 0, 0, -1, 0, timestamp}\<close>, the value of every error branch.\<close>

definition failed_result :: "QuerySet \<Rightarrow> int \<Rightarrow> BenchmarkResult" where
  "failed_result qs timestamp =
     \<lparr>ResultName = Name qs, Iterations = 0, Concurrency = 0, BatchSize = 0, Seconds = - 1,
      ColumnCount = 0, Timestamp = timestamp\<rparr>"

definition full_result :: "env \<Rightarrow> QuerySet \<Rightarrow> int \<Rightarrow> int \<Rightarrow> BenchmarkResult" where
  "full_result e qs concurrency batchSize =
     \<lparr>ResultName = Name qs, Iterations = iterations qs, Concurrency = concurrency,
      BatchSize = batchSize, Seconds = elapsed e, ColumnCount = NumLineOrders e,
      Timestamp = now_unix e\<rparr>"

text \<open>
  \<^verbatim>\<open>
  if qs.teardown != "" {
      _, err := s.Client.Query(s.Index.RawQuery(qs.teardown), nil)
      if err != nil {
          fmt.Printf("error in teardown: %v\n", err)
          return BenchmarkResult{qs.Name, 0, 0, 0, -1, 0, timestamp}
      }
  }
  seconds := time.Now().Sub(start).Seconds()
  fmt.Printf("wrote %d bytes to %v\n", nn, fname)
  return BenchmarkResult{qs.Name, qs.iterations, concurrency, batchSize, seconds,
      s.NumLineOrders, timestamp}
  \<close>
\<close>

definition optional_query :: "env \<Rightarrow> string \<Rightarrow> string option" where
  "optional_query e text = (if text \<noteq> [] then reply_err (query e text) else None)"

definition teardown_and_report ::
  "env \<Rightarrow> QuerySet \<Rightarrow> int \<Rightarrow> int \<Rightarrow> log_msg list \<Rightarrow> result_line list \<Rightarrow> outcome" where
  "teardown_and_report e qs concurrency batchSize msgs lines =
     (case optional_query e (teardown_text qs) of
        Some er \<Rightarrow>
          Returned \<lparr>summary = failed_result qs (now_unix e),
                    printed = msgs @ [LogTeardown er], written = lines\<rparr>
      | None \<Rightarrow>
          Returned \<lparr>summary = full_result e qs concurrency batchSize,
                    printed = msgs @ [LogWrote], written = lines\<rparr>)"

text \<open>
  \<open>RunSumMultiBatch\<close>: the results directory and file, the producer goroutine, the setup
  query, the workers, the collector, the teardown query and the summary, in the order of
  the source. A panic of the producer goroutine ends the process like any other.
\<close>

definition RunSumMultiBatch ::
  "(string \<Rightarrow> iface list \<Rightarrow> string) \<Rightarrow> env \<Rightarrow> QuerySet \<Rightarrow> int \<Rightarrow> int \<Rightarrow> outcome" where
  "RunSumMultiBatch sprintf e qs concurrency batchSize =
     (case mkdir_err e of
        Some er \<Rightarrow>
          Returned \<lparr>summary = failed_result qs (now_unix e),
                    printed = [LogResultsDir er], written = []\<rparr>
      | None \<Rightarrow>
         (case create_err e of
            Some er \<Rightarrow>
              Returned \<lparr>summary = failed_result qs (now_unix e),
                        printed = [LogResultsFile er], written = []\<rparr>
          | None \<Rightarrow>
             (case producer sprintf qs batchSize of
                Inl p \<Rightarrow> Crashed p
              | Inr ops \<Rightarrow>
                 (case optional_query e (setup_text qs) of
                    Some er \<Rightarrow>
                      Returned \<lparr>summary = failed_result qs (now_unix e),
                                printed = [LogSetup er], written = []\<rparr>
                  | None \<Rightarrow>
                     (case collect (write_err e) (arrival e ops concurrency) [] of
                        Died p \<Rightarrow> Crashed p
                      | QueryFailed lines er \<Rightarrow>
                          Returned \<lparr>summary = failed_result qs (now_unix e),
                                    printed = [LogRunningQuery er], written = lines\<rparr>
                      | WriteFailed lines er \<Rightarrow>
                          teardown_and_report e qs concurrency batchSize
                            [LogWritingFile er] lines
                      | Drained lines \<Rightarrow>
                          teardown_and_report e qs concurrency batchSize [] lines)))))"

text \<open>
  A QuerySet whose derived fields agree with its grids, as \<open>NewQuerySet\<close> and
  \<open>NewRegisterQuerySet\<close> leave them, or whose iteration count is 0 as in the zero value;
  the size of the iteration space is representable.
\<close>

definition wf_QuerySet :: "QuerySet \<Rightarrow> bool" where
  "wf_QuerySet qs \<longleftrightarrow>
     grids_ok (ArgSets qs) \<and> dim_count qs = go_len (ArgSets qs)
     \<and> lengths qs = map go_len (ArgSets qs)
     \<and> (iterations qs = prod_list (map go_len (ArgSets qs)) \<or> iterations qs = 0)"

section \<open>The query catalogue\<close>

text \<open>
  \<^verbatim>\<open>
  func arange(start, stop, step int) []int {
      x := make([]int, 0, (stop-start)/step)
      for n := start; n < stop; n += step {
          x = append(x, n)
      }
      return x
  }
  \<close>
  Every call in the catalogue has step 1. With a step of 0 or less the Go function
  panics in \<open>make\<close> or does not leave its loop; the guard \<open>0 < step\<close> keeps the
  model total and plays no part for the calls the program makes.
\<close>

function arange_loop :: "int \<Rightarrow> int \<Rightarrow> int \<Rightarrow> int list" where
  "arange_loop n stop step =
     (if n < stop \<and> 0 < step then n # arange_loop (n + step) stop step else [])"
  by pat_completeness auto
termination
  by (relation "measure (\<lambda>(n, stop, step). nat (stop - n))") auto

declare arange_loop.simps [simp del]

definition arange :: "int \<Rightarrow> int \<Rightarrow> int \<Rightarrow> int list" where
  "arange start stop step = arange_loop start stop step"

text \<open>
  The map \<open>nations\<close> of \<open>main.go\<close>, and Go's map index expression, which gives the zero
  value for a key that is absent.
\<close>

definition nations :: "(string \<times> int) list" where
  "nations =
    [(''CANADA'', 0),
     (''ARGENTINA'', 1),
     (''BRAZIL'', 2),
     (''UNITED STATES'', 3),
     (''PERU'', 4),
     (''ETHIOPIA'', 5),
     (''ALGERIA'', 6),
     (''KENYA'', 7),
     (''MOZAMBIQUE'', 8),
     (''MOROCCO'', 9),
     (''INDIA'', 10),
     (''INDONESIA'', 11),
     (''CHINA'', 12),
     (''VIETNAM'', 13),
     (''JAPAN'', 14),
     (''ROMANIA'', 15),
     (''RUSSIA'', 16),
     (''FRANCE'', 17),
     (''UNITED KINGDOM'', 18),
     (''GERMANY'', 19),
     (''SAUDI ARABIA'', 20),
     (''JORDAN'', 21),
     (''IRAN'', 22),
     (''IRAQ'', 23),
     (''EGYPT'', 24)]"

definition go_map_index :: "(string \<times> int) list \<Rightarrow> string \<Rightarrow> int" where
  "go_map_index m k = (case map_of m k of None \<Rightarrow> 0 | Some v \<Rightarrow> v)"

text \<open>
  The templates of \<open>getQuerySet\<close>, one constant per raw string literal of the source,
  line by line.
\<close>

definition template_1_1 :: string where
  \<open>template_1_1 =
     ''Sum(\<newline>'' @
     ''	Intersect(\<newline>'' @
     ''		Bitmap(frame="lo_year", rowID=%d),\<newline>'' @
     ''		Range(frame="lo_discount", lo_discount >= 1),\<newline>'' @
     ''		Range(frame="lo_discount", lo_discount <= 3),\<newline>'' @
     ''		Range(frame="lo_quantity", lo_quantity < 25)\<newline>'' @
     ''	),\<newline>'' @
     ''frame="lo_revenue_computed", field="lo_revenue_computed")''\<close>

definition template_1_2 :: string where
  \<open>template_1_2 =
     ''Sum(\<newline>'' @
     ''	Intersect(\<newline>'' @
     ''		Bitmap(frame="lo_month", rowID=0),\<newline>'' @
     ''		Bitmap(frame="lo_year", rowID=%d),\<newline>'' @
     ''		Range(frame="lo_discount", lo_discount >= 4),\<newline>'' @
     ''		Range(frame="lo_discount", lo_discount <= 6),\<newline>'' @
     ''		Range(frame="lo_quantity", lo_quantity >= 26),\<newline>'' @
     ''		Range(frame="lo_quantity", lo_quantity <= 35)\<newline>'' @
     ''	),\<newline>'' @
     ''frame="lo_revenue_computed", field="lo_revenue_computed")''\<close>

definition template_1_3 :: string where
  \<open>template_1_3 =
     ''Sum(\<newline>'' @
     ''	Intersect(\<newline>'' @
     ''		Bitmap(frame="lo_weeknum", rowID=6),\<newline>'' @
     ''		Bitmap(frame="lo_year", rowID=%d),\<newline>'' @
     ''		Range(frame="lo_discount", lo_discount >= 5),\<newline>'' @
     ''		Range(frame="lo_discount", lo_discount <= 7),\<newline>'' @
     ''		Range(frame="lo_quantity", lo_quantity >= 26),\<newline>'' @
     ''		Range(frame="lo_quantity", lo_quantity <= 35)\<newline>'' @
     ''	),\<newline>'' @
     ''frame="lo_revenue_computed", field="lo_revenue_computed")''\<close>

definition template_1_1b :: string where
  \<open>template_1_1b =
     ''Sum(\<newline>'' @
     ''	Intersect(\<newline>'' @
     ''		Bitmap(frame="lo_year", rowID=%d),\<newline>'' @
     ''		Union(\<newline>'' @
     ''			Bitmap(frame=lo_discount_b, rowID=1),\<newline>'' @
     ''			Bitmap(frame=lo_discount_b, rowID=2),\<newline>'' @
     ''			Bitmap(frame=lo_discount_b, rowID=3)),\<newline>'' @
     ''		Union(\<newline>'' @
     ''			Bitmap(frame=lo_quantity_b, rowID=1),\<newline>'' @
     ''			Bitmap(frame=lo_quantity_b, rowID=2),\<newline>'' @
     ''			Bitmap(frame=lo_quantity_b, rowID=3),\<newline>'' @
     ''			Bitmap(frame=lo_quantity_b, rowID=4),\<newline>'' @
     ''			Bitmap(frame=lo_quantity_b, rowID=5),\<newline>'' @
     ''			Bitmap(frame=lo_quantity_b, rowID=6),\<newline>'' @
     ''			Bitmap(frame=lo_quantity_b, rowID=7),\<newline>'' @
     ''			Bitmap(frame=lo_quantity_b, rowID=8),\<newline>'' @
     ''			Bitmap(frame=lo_quantity_b, rowID=9),\<newline>'' @
     ''			Bitmap(frame=lo_quantity_b, rowID=10),\<newline>'' @
     ''			Bitmap(frame=lo_quantity_b, rowID=11),\<newline>'' @
     ''			Bitmap(frame=lo_quantity_b, rowID=12),\<newline>'' @
     ''			Bitmap(frame=lo_quantity_b, rowID=13),\<newline>'' @
     ''			Bitmap(frame=lo_quantity_b, rowID=14),\<newline>'' @
     ''			Bitmap(frame=lo_quantity_b, rowID=15),\<newline>'' @
     ''			Bitmap(frame=lo_quantity_b, rowID=16),\<newline>'' @
     ''			Bitmap(frame=lo_quantity_b, rowID=17),\<newline>'' @
     ''			Bitmap(frame=lo_quantity_b, rowID=18),\<newline>'' @
     ''			Bitmap(frame=lo_quantity_b, rowID=19),\<newline>'' @
     ''			Bitmap(frame=lo_quantity_b, rowID=20),\<newline>'' @
     ''			Bitmap(frame=lo_quantity_b, rowID=21),\<newline>'' @
     ''			Bitmap(frame=lo_quantity_b, rowID=22),\<newline>'' @
     ''			Bitmap(frame=lo_quantity_b, rowID=23),\<newline>'' @
     ''			Bitmap(frame=lo_quantity_b, rowID=24))\<newline>'' @
     ''	),\<newline>'' @
     ''frame="lo_revenue_computed", field="lo_revenue_computed")''\<close>

definition template_1_2b :: string where
  \<open>template_1_2b =
     ''Sum(\<newline>'' @
     ''	Intersect(\<newline>'' @
     ''		Bitmap(frame="lo_month", rowID=0),\<newline>'' @
     ''		Bitmap(frame="lo_year", rowID=%d),\<newline>'' @
     ''		Union(\<newline>'' @
     ''			Bitmap(frame=lo_discount_b, rowID=4),\<newline>'' @
     ''			Bitmap(frame=lo_discount_b, rowID=5),\<newline>'' @
     ''			Bitmap(frame=lo_discount_b, rowID=6)),\<newline>'' @
     ''		Union(\<newline>'' @
     ''			Bitmap(frame=lo_quantity_b, rowID=26),\<newline>'' @
     ''			Bitmap(frame=lo_quantity_b, rowID=27),\<newline>'' @
     ''			Bitmap(frame=lo_quantity_b, rowID=28),\<newline>'' @
     ''			Bitmap(frame=lo_quantity_b, rowID=29),\<newline>'' @
     ''			Bitmap(frame=lo_quantity_b, rowID=30),\<newline>'' @
     ''			Bitmap(frame=lo_quantity_b, rowID=31),\<newline>'' @
     ''			Bitmap(frame=lo_quantity_b, rowID=32),\<newline>'' @
     ''			Bitmap(frame=lo_quantity_b, rowID=33),\<newline>'' @
     ''			Bitmap(frame=lo_quantity_b, rowID=34),\<newline>'' @
     ''			Bitmap(frame=lo_quantity_b, rowID=35),\<newline>'' @
     ''			Bitmap(frame=lo_quantity_b, rowID=36))\<newline>'' @
     ''	),\<newline>'' @
     ''frame="lo_revenue_computed", field="lo_revenue_computed")''\<close>

definition template_1_3b :: string where
  \<open>template_1_3b =
     ''Sum(\<newline>'' @
     ''	Intersect(\<newline>'' @
     ''		Bitmap(frame="lo_weeknum", rowID=6),\<newline>'' @
     ''		Bitmap(frame="lo_year", rowID=%d),\<newline>'' @
     ''		Union(\<newline>'' @
     ''			Bitmap(frame=lo_discount_b, rowID=5),\<newline>'' @
     ''			Bitmap(frame=lo_discount_b, rowID=6),\<newline>'' @
     ''			Bitmap(frame=lo_discount_b, rowID=7)),\<newline>'' @
     ''		Union(\<newline>'' @
     ''			Bitmap(frame=lo_quantity_b, rowID=26),\<newline>'' @
     ''			Bitmap(frame=lo_quantity_b, rowID=27),\<newline>'' @
     ''			Bitmap(frame=lo_quantity_b, rowID=28),\<newline>'' @
     ''			Bitmap(frame=lo_quantity_b, rowID=29),\<newline>'' @
     ''			Bitmap(frame=lo_quantity_b, rowID=30),\<newline>'' @
     ''			Bitmap(frame=lo_quantity_b, rowID=31),\<newline>'' @
     ''			Bitmap(frame=lo_quantity_b, rowID=32),\<newline>'' @
     ''			Bitmap(frame=lo_quantity_b, rowID=33),\<newline>'' @
     ''			Bitmap(frame=lo_quantity_b, rowID=34),\<newline>'' @
     ''			Bitmap(frame=lo_quantity_b, rowID=35),\<newline>'' @
     ''			Bitmap(frame=lo_quantity_b, rowID=36))\<newline>'' @
     ''	),\<newline>'' @
     ''frame="lo_revenue_computed", field="lo_revenue_computed")''\<close>

definition template_1_1c :: string where
  \<open>template_1_1c =
     ''Sum(\<newline>'' @
     ''	Intersect(\<newline>'' @
     ''		Bitmap(frame="lo_year", rowID=%d),\<newline>'' @
     ''		Range(frame="lo_discount", lo_discount >< [1,3]),\<newline>'' @
     ''		Range(frame="lo_quantity", lo_quantity < 25)\<newline>'' @
     ''	),\<newline>'' @
     ''frame="lo_revenue_computed", field="lo_revenue_computed")''\<close>

definition template_1_2c :: string where
  \<open>template_1_2c =
     ''Sum(\<newline>'' @
     ''	Intersect(\<newline>'' @
     ''		Bitmap(frame="lo_month", rowID=0),\<newline>'' @
     ''		Bitmap(frame="lo_year", rowID=%d),\<newline>'' @
     ''		Range(frame="lo_discount", lo_discount >< [4,6]),\<newline>'' @
     ''		Range(frame="lo_quantity", lo_quantity >< [26,35]),\<newline>'' @
     ''	),\<newline>'' @
     ''frame="lo_revenue_computed", field="lo_revenue_computed")''\<close>

definition template_1_3c :: string where
  \<open>template_1_3c =
     ''Sum(\<newline>'' @
     ''	Intersect(\<newline>'' @
     ''		Bitmap(frame="lo_weeknum", rowID=6),\<newline>'' @
     ''		Bitmap(frame="lo_year", rowID=%d),\<newline>'' @
     ''		Range(frame="lo_discount", lo_discount >< [5,7]),\<newline>'' @
     ''		Range(frame="lo_quantity", lo_quantity >< [26,35]),\<newline>'' @
     ''	),\<newline>'' @
     ''frame="lo_revenue_computed", field="lo_revenue_computed")''\<close>

definition template_2_1 :: string where
  \<open>template_2_1 =
     ''Sum(\<newline>'' @
     ''	Intersect(\<newline>'' @
     ''		Bitmap(frame="p_brand1", rowID=%d),\<newline>'' @
     ''		Bitmap(frame="lo_year", rowID=%d),\<newline>'' @
     ''		Bitmap(frame="s_region", rowID=0),\<newline>'' @
     ''	),\<newline>'' @
     ''	frame="lo_revenue", field="lo_revenue")''\<close>

definition template_2_1r :: string where
  \<open>template_2_1r =
     ''Sum(\<newline>'' @
     ''	Intersect(\<newline>'' @
     ''		Bitmap(frame="p_brand1", rowID=%d),\<newline>'' @
     ''		IntersectReg(\<newline>'' @
     ''			Bitmap(frame="lo_year", rowID=%d),\<newline>'' @
     ''			Bitmap(frame="s_region", rowID=0),\<newline>'' @
     ''		),\<newline>'' @
     ''	),\<newline>'' @
     ''	frame="lo_revenue", field="lo_revenue")''\<close>

definition template_2_2 :: string where
  \<open>template_2_2 =
     ''Sum(\<newline>'' @
     ''	Intersect(\<newline>'' @
     ''		Bitmap(frame="p_brand1", rowID=%d),\<newline>'' @
     ''		Bitmap(frame="lo_year", rowID=%d),\<newline>'' @
     ''		Bitmap(frame="s_region", rowID=2),\<newline>'' @
     ''	),\<newline>'' @
     ''	frame="lo_revenue", field="lo_revenue")''\<close>

definition template_2_3 :: string where
  \<open>template_2_3 =
     ''Sum(\<newline>'' @
     ''	Intersect(\<newline>'' @
     ''		Bitmap(frame="lo_year", rowID=%d),\<newline>'' @
     ''		Bitmap(frame="p_brand1", rowID=260),\<newline>'' @
     ''		Bitmap(frame="s_region", rowID=3),\<newline>'' @
     ''	),\<newline>'' @
     ''	frame="lo_revenue", field="lo_revenue")''\<close>

definition template_3_1 :: string where
  \<open>template_3_1 =
     ''Sum(\<newline>'' @
     ''	Intersect(\<newline>'' @
     ''		Bitmap(frame="c_nation", rowID=%d),\<newline>'' @
     ''		Bitmap(frame="s_nation", rowID=%d),\<newline>'' @
     ''		Bitmap(frame="lo_year", rowID=%d),\<newline>'' @
     ''	),\<newline>'' @
     ''	frame="lo_revenue", field="lo_revenue")''\<close>

definition template_3_1r :: string where
  \<open>template_3_1r =
     ''Sum(\<newline>'' @
     ''	Intersect(\<newline>'' @
     ''		Bitmap(frame="lo_year", rowID=%d),\<newline>'' @
     ''		IntersectReg(\<newline>'' @
     ''			Bitmap(frame="c_nation", rowID=%d),\<newline>'' @
     ''			Bitmap(frame="s_nation", rowID=%d),\<newline>'' @
     ''		),\<newline>'' @
     ''	),\<newline>'' @
     ''	frame="lo_revenue", field="lo_revenue")''\<close>

definition template_3_2 :: string where
  \<open>template_3_2 =
     ''Sum(\<newline>'' @
     ''	Intersect(\<newline>'' @
     ''		Bitmap(frame="c_city", rowID=%d),\<newline>'' @
     ''		Bitmap(frame="s_city", rowID=%d),\<newline>'' @
     ''		Bitmap(frame="lo_year", rowID=%d),\<newline>'' @
     ''	),\<newline>'' @
     ''	frame="lo_revenue", field="lo_revenue")''\<close>

definition template_3_2r :: string where
  \<open>template_3_2r =
     ''Sum(\<newline>'' @
     ''	Intersect(\<newline>'' @
     ''		Bitmap(frame="lo_year", rowID=%d),\<newline>'' @
     ''		IntersectReg(\<newline>'' @
     ''			Bitmap(frame="c_city", rowID=%d),\<newline>'' @
     ''			Bitmap(frame="s_city", rowID=%d),\<newline>'' @
     ''		),\<newline>'' @
     ''	),\<newline>'' @
     ''	frame="lo_revenue", field="lo_revenue")''\<close>

definition template_3_3 :: string where
  \<open>template_3_3 =
     ''Sum(\<newline>'' @
     ''	Intersect(\<newline>'' @
     ''		Bitmap(frame="c_city", rowID=%d),\<newline>'' @
     ''		Bitmap(frame="s_city", rowID=%d),\<newline>'' @
     ''		Bitmap(frame="lo_year", rowID=%d),\<newline>'' @
     ''	),\<newline>'' @
     ''	frame="lo_revenue", field="lo_revenue")''\<close>

definition template_3_4 :: string where
  \<open>template_3_4 =
     ''Sum(\<newline>'' @
     ''	Intersect(\<newline>'' @
     ''		Bitmap(frame="c_city", rowID=%d),\<newline>'' @
     ''		Bitmap(frame="s_city", rowID=%d),\<newline>'' @
     ''		Bitmap(frame="lo_month", rowID=11),\<newline>'' @
     ''		Bitmap(frame="lo_year", rowID=1997),\<newline>'' @
     ''	),\<newline>'' @
     ''	frame="lo_revenue", field="lo_revenue")''\<close>

definition template_4_1 :: string where
  \<open>template_4_1 =
     ''Sum(\<newline>'' @
     ''	Intersect(\<newline>'' @
     ''		Bitmap(frame="c_nation", rowID=%d),\<newline>'' @
     ''		Bitmap(frame="lo_year", rowID=%d),\<newline>'' @
     ''		Bitmap(frame="s_region", rowID=0),\<newline>'' @
     ''		Union(\<newline>'' @
     ''			Bitmap(frame="p_mfgr", rowID=1),\<newline>'' @
     ''			Bitmap(frame="p_mfgr", rowID=2),\<newline>'' @
     ''		)\<newline>'' @
     ''	),\<newline>'' @
     ''	frame="lo_profit", field="lo_profit")''\<close>

definition template_4_1r :: string where
  \<open>template_4_1r =
     ''Sum(\<newline>'' @
     ''	Intersect(\<newline>'' @
     ''		Bitmap(frame="c_nation", rowID=%d),\<newline>'' @
     ''		IntersectReg(\<newline>'' @
     ''			Bitmap(frame="lo_year", rowID=%d),\<newline>'' @
     ''			Bitmap(frame="s_region", rowID=0),\<newline>'' @
     ''			Union(\<newline>'' @
     ''				Bitmap(frame="p_mfgr", rowID=1),\<newline>'' @
     ''				Bitmap(frame="p_mfgr", rowID=2),\<newline>'' @
     ''			)\<newline>'' @
     ''		)\<newline>'' @
     ''	),\<newline>'' @
     ''	frame="lo_profit", field="lo_profit")''\<close>

definition template_4_1rb :: string where
  \<open>template_4_1rb =
     ''Sum(\<newline>'' @
     ''	Intersect(\<newline>'' @
     ''		Bitmap(frame="c_nation", rowID=%d),\<newline>'' @
     ''		Bitmap(frame="lo_year", rowID=%d),\<newline>'' @
     ''		Load(id=123)),\<newline>'' @
     ''	frame=lo_profit, field=lo_profit)''\<close>

definition setup_4_1rb :: string where
  \<open>setup_4_1rb =
     ''Store(\<newline>'' @
     ''	Intersect(\<newline>'' @
     ''		Bitmap(frame="s_region", rowID=0),\<newline>'' @
     ''		Union(\<newline>'' @
     ''			Bitmap(frame="p_mfgr", rowID=1),\<newline>'' @
     ''			Bitmap(frame="p_mfgr", rowID=2),\<newline>'' @
     ''		)), id=41)''\<close>

definition teardown_4_1rb :: string where
  \<open>teardown_4_1rb =
     ''Purge(id=41)''\<close>

definition template_4_2 :: string where
  \<open>template_4_2 =
     ''Sum(\<newline>'' @
     ''	Intersect(\<newline>'' @
     ''		Bitmap(frame="p_category", rowID=%d),\<newline>'' @
     ''		Bitmap(frame="s_nation", rowID=%d),\<newline>'' @
     ''		Bitmap(frame="lo_year", rowID=%d),\<newline>'' @
     ''		Bitmap(frame="c_region", rowID=0),\<newline>'' @
     ''	),\<newline>'' @
     ''frame="lo_profit", field="lo_profit")''\<close>

definition template_4_2r :: string where
  \<open>template_4_2r =
     ''Sum(\<newline>'' @
     ''	Intersect(\<newline>'' @
     ''		Bitmap(frame="p_category", rowID=%d),\<newline>'' @
     ''		IntersectReg(\<newline>'' @
     ''			Bitmap(frame="s_nation", rowID=%d),\<newline>'' @
     ''			Bitmap(frame="lo_year", rowID=%d),\<newline>'' @
     ''			Bitmap(frame="c_region", rowID=0),\<newline>'' @
     ''		),\<newline>'' @
     ''	),\<newline>'' @
     ''frame="lo_profit", field="lo_profit")''\<close>

definition template_4_3 :: string where
  \<open>template_4_3 =
     ''Sum(\<newline>'' @
     ''	Intersect(\<newline>'' @
     ''		Bitmap(frame="p_brand1", rowID=%d),\<newline>'' @
     ''		Bitmap(frame="s_city", rowID=%d),\<newline>'' @
     ''		Bitmap(frame="lo_year", rowID=%d),\<newline>'' @
     ''		Bitmap(frame="c_region", rowID=0),\<newline>'' @
     ''	),\<newline>'' @
     ''frame="lo_profit", field="lo_profit")''\<close>

definition template_4_3r :: string where
  \<open>template_4_3r =
     ''Sum(\<newline>'' @
     ''	Intersect(\<newline>'' @
     ''		Bitmap(frame="p_brand1", rowID=%d),\<newline>'' @
     ''		IntersectReg(\<newline>'' @
     ''			Bitmap(frame="lo_year", rowID=%d),\<newline>'' @
     ''			Bitmap(frame="s_city", rowID=%d),\<newline>'' @
     ''			Bitmap(frame="c_region", rowID=0),\<newline>'' @
     ''		),\<newline>'' @
     ''	),\<newline>'' @
     ''frame="lo_profit", field="lo_profit")''\<close>

text \<open>
  \<open>getQuerySet\<close> is a \<open>switch\<close> on the name with no \<open>default\<close> case: a name that no
  case lists leaves \<open>var qs QuerySet\<close> at its zero value. The local slices of each case
  are written in place.
\<close>

definition getQuerySet :: "string \<Rightarrow> QuerySet" where
  "getQuerySet qname =
     (if qname = ''1.1'' then
        (let years = [1993]
         in NewQuerySet qname template_1_1 [years])
      else if qname = ''1.2'' then
        (let years = [1994]
         in NewQuerySet qname template_1_2 [years])
      else if qname = ''1.3'' then
        (let years = [1994]
         in NewQuerySet qname template_1_3 [years])
      else if qname = ''1.1b'' then
        (let years = [1993]
         in NewQuerySet qname template_1_1b [years])
      else if qname = ''1.2b'' then
        (let years = [1994]
         in NewQuerySet qname template_1_2b [years])
      else if qname = ''1.3b'' then
        (let years = [1994]
         in NewQuerySet qname template_1_3b [years])
      else if qname = ''1.1c'' then
        (let years = [1993]
         in NewQuerySet qname template_1_1c [years])
      else if qname = ''1.2c'' then
        (let years = [1994]
         in NewQuerySet qname template_1_2c [years])
      else if qname = ''1.3c'' then
        (let years = [1994]
         in NewQuerySet qname template_1_3c [years])
      else if qname = ''2.1'' then
        (let years = arange 1992 1999 1;
             brands = arange 40 80 1
         in NewQuerySet qname template_2_1 [brands, years])
      else if qname = ''2.1r'' then
        (let years = arange 1992 1999 1;
             brands = arange 40 80 1
         in NewQuerySet qname template_2_1r [brands, years])
      else if qname = ''2.2'' then
        (let years = arange 1992 1999 1;
             brands = arange 260 268 1
         in NewQuerySet qname template_2_2 [brands, years])
      else if qname = ''2.3'' then
        (let years = arange 1992 1999 1
         in NewQuerySet qname template_2_3 [years])
      else if qname = ''3.1'' then
        (let years = arange 1992 1998 1;
             nations = arange 10 15 1
         in NewQuerySet qname template_3_1 [nations, nations, years])
      else if qname = ''3.1r'' then
        (let years = arange 1992 1998 1;
             nations = arange 10 15 1
         in NewQuerySet qname template_3_1r [years, nations, nations])
      else if qname = ''3.2'' then
        (let years = arange 1992 1998 1;
             nationID = go_map_index nations ''UNITED STATES'';
             cities = arange (nationID * 10) (nationID * 10 + 10) 1
         in NewQuerySet qname template_3_2 [cities, cities, years])
      else if qname = ''3.2r'' then
        (let years = arange 1992 1998 1;
             nationID = go_map_index nations ''UNITED STATES'';
             cities = arange (nationID * 10) (nationID * 10 + 10) 1
         in NewQuerySet qname template_3_2r [years, cities, cities])
      else if qname = ''3.3'' then
        (let years = arange 1992 1998 1;
             cities = [181, 185]
         in NewQuerySet qname template_3_3 [cities, cities, years])
      else if qname = ''3.4'' then
        (let cities = [181, 185]
         in NewQuerySet qname template_3_4 [cities, cities])
      else if qname = ''4.1'' then
        (let years = arange 1992 1999 1;
             nations = arange 0 5 1
         in NewQuerySet qname template_4_1 [nations, years])
      else if qname = ''4.1r'' then
        (let years = arange 1992 1999 1;
             nations = arange 0 5 1
         in NewQuerySet qname template_4_1r [nations, years])
      else if qname = ''4.1rb'' then
        (let years = arange 1992 1999 1;
             nations = arange 0 5 1
         in NewRegisterQuerySet qname template_4_1rb setup_4_1rb teardown_4_1rb
            [nations, years])
      else if qname = ''4.2'' then
        (let years = [1997, 1998];
             nations = arange 0 5 1;
             categories = arange 0 10 1
         in NewQuerySet qname template_4_2 [categories, nations, years])
      else if qname = ''4.2r'' then
        (let years = [1997, 1998];
             nations = arange 0 5 1;
             categories = arange 0 10 1
         in NewQuerySet qname template_4_2r [categories, nations, years])
      else if qname = ''4.3'' then
        (let years = [1997, 1998];
             cities = arange 30 40 1;
             brands = arange 120 160 1
         in NewQuerySet qname template_4_3 [brands, cities, years])
      else if qname = ''4.3r'' then
        (let years = [1997, 1998];
             cities = arange 30 40 1;
             brands = arange 120 160 1
         in NewQuerySet qname template_4_3r [brands, years, cities])
      else zero_QuerySet)"


section \<open>The handler and the grid sweep\<close>

text \<open>
  \<^verbatim>\<open>
  qs := getQuerySet(qname)
  var results []BenchmarkResult
  if qtype == "query" {
      results = []BenchmarkResult{
          s.RunSumMultiBatch(qs, s.concurrency, s.batchSize),
      }
  } else if qtype == "grid" {
      concurrency := []int{8, 16, 32}
      batchSize := []int{2, 4, 8}
      for _, c := range concurrency {
          for _, b := range batchSize {
              results = append(results, s.RunSumMultiBatch(qs, c, b))
          }
      }
  }
  enc := json.NewEncoder(w)
  err := enc.Encode(results)
  \<close>
  The runs of a sweep happen one after the other, each in the environment it meets:
  \<open>envs c b\<close> is the environment of the run with \<open>c\<close> workers and batch size \<open>b\<close>. A run
  that crashes ends the process and the sweep with it. The handler's value is the list
  it encodes.
\<close>

fun grid_inner ::
  "(int \<Rightarrow> int \<Rightarrow> outcome) \<Rightarrow> int \<Rightarrow> int list \<Rightarrow> run_result list \<Rightarrow> go_panic + run_result list" where
  "grid_inner run c [] results = Inr results"
| "grid_inner run c (b # bs) results =
     (case run c b of
        Crashed p \<Rightarrow> Inl p
      | Returned r \<Rightarrow> grid_inner run c bs (results @ [r]))"

fun grid_outer ::
  "(int \<Rightarrow> int \<Rightarrow> outcome) \<Rightarrow> int list \<Rightarrow> int list \<Rightarrow> run_result list
     \<Rightarrow> go_panic + run_result list" where
  "grid_outer run [] batchSize results = Inr results"
| "grid_outer run (c # cs) batchSize results =
     (case grid_inner run c batchSize results of
        Inl p \<Rightarrow> Inl p
      | Inr results' \<Rightarrow> grid_outer run cs batchSize results')"

definition HandleQuery ::
  "(string \<Rightarrow> iface list \<Rightarrow> string) \<Rightarrow> (int \<Rightarrow> int \<Rightarrow> env) \<Rightarrow> int \<Rightarrow> int \<Rightarrow> string \<Rightarrow> string
     \<Rightarrow> go_panic + run_result list" where
  "HandleQuery sprintf envs s_concurrency s_batchSize qname qtype =
     (let qs = getQuerySet qname in
      if qtype = ''query'' then
        (case RunSumMultiBatch sprintf (envs s_concurrency s_batchSize) qs
                s_concurrency s_batchSize of
           Crashed p \<Rightarrow> Inl p
         | Returned r \<Rightarrow> Inr [r])
      else if qtype = ''grid'' then
        grid_outer (\<lambda>c b. RunSumMultiBatch sprintf (envs c b) qs c b) [8, 16, 32] [2, 4, 8] []
      else Inr [])"

section \<open>Example collaborators\<close>


text \<open>In \<open>short_env\<close> every request is answered, without an error, by the single result 7.\<close>

definition short_env :: env where
  "short_env =
     \<lparr>mkdir_err = None, create_err = None,
      query = (\<lambda>q. \<lparr>reply_sums = Inr [7], reply_err = None\<rparr>),
      write_err = (\<lambda>k. None), choices = [], now_unix = 1500000000, elapsed = 0,
      NumLineOrders = 6000000\<rparr>"


text \<open>
  In \<open>teardown_env\<close> the request \<open>Drop()\<close> fails and every other request is answered,
  without an error, by the results 7 and 8.
\<close>

definition teardown_env :: env where
  "teardown_env =
     \<lparr>mkdir_err = None, create_err = None,
      query = (\<lambda>q. if q = ''Drop()''
                   then \<lparr>reply_sums = Inl NilDereference, reply_err = Some ''teardown refused''\<rparr>
                   else \<lparr>reply_sums = Inr [7, 8], reply_err = None\<rparr>),
      write_err = (\<lambda>k. None), choices = [], now_unix = 1500000000, elapsed = 0,
      NumLineOrders = 6000000\<rparr>"

text \<open>
  The environments of a sweep in which the results directory cannot be created for the
  run with 16 workers and batch size 4, every other run meeting \<open>short_env\<close>.
\<close>

definition grid_envs :: "int \<Rightarrow> int \<Rightarrow> env" where
  "grid_envs c b =
     (if c = 16 \<and> b = 4 then short_env\<lparr>mkdir_err := Some ''permission denied''\<rparr>
      else short_env)"

section \<open>Properties of the enumerator\<close>

lemma wrap64_id: "- 9223372036854775808 \<le> x \<Longrightarrow> x \<le> max_int64 \<Longrightarrow> wrap64 x = x"
  by (simp add: wrap64_def max_int64_def)

lemma sdiv_nonneg: "0 \<le> a \<Longrightarrow> 0 < b \<Longrightarrow> (a::int) sdiv b = a div b"
  by (simp add: signed_divide_int_def sgn_if)

lemma smod_nonneg: "0 \<le> a \<Longrightarrow> 0 < b \<Longrightarrow> (a::int) smod b = a mod b"
  by (simp add: signed_modulo_int_def sgn_if)

lemma prod_list_pos: "list_all (\<lambda>d. 0 < d) ds \<Longrightarrow> 0 < (prod_list ds :: int)"
  by (induction ds) auto

lemma UnravelIndex_loop_unravel:
  assumes "list_all (\<lambda>d. 0 < d) ds" and "0 < denom" and "denom * prod_list ds \<le> max_int64"
    and "0 \<le> index1" and "index1 \<le> max_int64"
  shows "UnravelIndex_loop index1 denom ds = Inr (unravel (index1 div denom) ds)"
  using assms
proof (induction ds arbitrary: denom)
  case Nil
  then show ?case by simp
next
  case (Cons d ds)
  have d: "0 < d" and ds: "list_all (\<lambda>d. 0 < d) ds"
    using Cons.prems(1) by simp_all
  have P: "0 < prod_list ds" by (rule prod_list_pos [OF ds])
  have q0: "0 \<le> index1 div denom"
    using Cons.prems(2,4) by (simp add: pos_imp_zdiv_nonneg_iff)
  have qle: "index1 div denom \<le> index1"
    using Cons.prems(2,4)
    by (metis div_by_1 int_one_le_iff_zero_less zdiv_mono2 zero_less_one)
  have quot: "go_quot index1 denom = Inr (index1 div denom)"
    using Cons.prems(2,4,5) q0 qle
    by (simp add: go_quot_def sdiv_nonneg wrap64_id)
  have rem: "go_rem (index1 div denom) d = Inr ((index1 div denom) mod d)"
    using d q0 by (simp add: go_rem_def smod_nonneg)
  have dd: "0 < denom * d"
    using Cons.prems(2) d by simp
  have "denom * d * 1 \<le> denom * d * prod_list ds"
    using dd P by (intro mult_left_mono) simp_all
  then have le: "denom * d \<le> max_int64" and le': "denom * d * prod_list ds \<le> max_int64"
    using Cons.prems(3) by (simp_all add: mult.assoc)
  have w: "wrap64 (denom * d) = denom * d"
    using dd le by (simp add: wrap64_id)
  have "UnravelIndex_loop index1 (denom * d) ds = Inr (unravel (index1 div (denom * d)) ds)"
    using Cons.IH [OF ds dd le' Cons.prems(4,5)] .
  moreover have "index1 div (denom * d) = (index1 div denom) div d"
    using d by (intro zdiv_zmult2_eq) simp
  ultimately show ?case
    by (simp add: quot rem w)
qed

lemma UnravelIndex_unravel:
  "dims_ok dims \<Longrightarrow> 0 \<le> index1 \<Longrightarrow> index1 \<le> max_int64 \<Longrightarrow>
     UnravelIndex index1 dims = Inr (unravel index1 dims)"
  using UnravelIndex_loop_unravel [of dims 1 index1]
  by (simp add: UnravelIndex_def dims_ok_def)

lemma length_unravel: "length (unravel q ds) = length ds"
  by (induction ds arbitrary: q) simp_all

lemma unravel_nth:
  "list_all (\<lambda>d. 0 < d) ds \<Longrightarrow> k < length ds \<Longrightarrow>
     unravel q ds ! k = (q div prod_list (take k ds)) mod (ds ! k)"
proof (induction ds arbitrary: q k)
  case Nil
  then show ?case by simp
next
  case (Cons d ds)
  show ?case
  proof (cases k)
    case 0
    then show ?thesis by simp
  next
    case (Suc j)
    have "list_all (\<lambda>d. 0 < d) (take j ds)"
      using Cons.prems(1) by (auto simp: list_all_iff dest: in_set_takeD)
    then have "0 \<le> prod_list (take j ds)"
      using prod_list_pos [of "take j ds"] by simp
    then have "q div (d * prod_list (take j ds)) = (q div d) div prod_list (take j ds)"
      by (rule zdiv_zmult2_eq)
    with Cons Suc show ?thesis by simp
  qed
qed

lemma unravel_in_box: "list_all (\<lambda>d. 0 < d) ds \<Longrightarrow> in_box ds (unravel q ds)"
  by (induction ds arbitrary: q) (simp_all add: in_box_def)

lemma ravel_unravel:
  "list_all (\<lambda>d. 0 < d) ds \<Longrightarrow> ravel (unravel q ds) ds = q mod prod_list ds"
proof (induction ds arbitrary: q)
  case Nil
  then show ?case by simp
next
  case (Cons d ds)
  have d: "0 < d" and ds: "list_all (\<lambda>d. 0 < d) ds"
    using Cons.prems by simp_all
  have "0 \<le> prod_list ds"
    using prod_list_pos [OF ds] by simp
  then have "q mod (d * prod_list ds) = d * (q div d mod prod_list ds) + q mod d"
    by (rule zmod_zmult2_eq)
  then show ?case
    using Cons.IH [OF ds] by simp
qed

lemma ravel_bounds:
  "list_all (\<lambda>d. 0 < d) ds \<Longrightarrow> in_box ds t \<Longrightarrow> 0 \<le> ravel t ds \<and> ravel t ds < prod_list ds"
proof (induction t ds rule: ravel.induct)
  case (1 x xs d ds)
  have d: "0 < d" and ds: "list_all (\<lambda>d. 0 < d) ds" and x: "0 \<le> x" "x < d"
    and box: "in_box ds xs"
    using "1.prems" by (simp_all add: in_box_def)
  have IH: "0 \<le> ravel xs ds" "ravel xs ds < prod_list ds"
    using "1.IH" [OF ds box] by simp_all
  have "ravel xs ds + 1 \<le> prod_list ds" using IH by simp
  then have "d * (ravel xs ds + 1) \<le> d * prod_list ds"
    using d by (intro mult_left_mono) simp_all
  then have "x + d * ravel xs ds < d * prod_list ds"
    using x by (simp add: algebra_simps)
  moreover have "0 \<le> x + d * ravel xs ds"
    using x d IH by simp
  ultimately show ?case by simp
qed (simp_all add: in_box_def)

lemma unravel_ravel:
  "list_all (\<lambda>d. 0 < d) ds \<Longrightarrow> in_box ds t \<Longrightarrow> unravel (ravel t ds) ds = t"
proof (induction t ds rule: ravel.induct)
  case (1 x xs d ds)
  have d: "0 < d" and ds: "list_all (\<lambda>d. 0 < d) ds" and x: "0 \<le> x" "x < d"
    and box: "in_box ds xs"
    using "1.prems" by (simp_all add: in_box_def)
  have "(x + d * ravel xs ds) mod d = x"
    using x by simp
  moreover have "(x + d * ravel xs ds) div d = ravel xs ds"
    using x d by simp
  ultimately show ?case
    using "1.IH" [OF ds box] by simp
qed (simp_all add: in_box_def)

lemma in_box_nth:
  "in_box ds t \<Longrightarrow> k < length ds \<Longrightarrow> 0 \<le> t ! k \<and> t ! k < ds ! k"
  by (auto simp: in_box_def dest: list_all2_nthD)

lemma dims_ok_pos: "dims_ok dims \<Longrightarrow> list_all (\<lambda>d. 0 < d) dims"
  by (simp add: dims_ok_def)

lemma UnravelIndex_ravel:
  assumes "dims_ok dims" and "in_box dims t"
  shows "0 \<le> ravel t dims \<and> ravel t dims < prod_list dims
    \<and> UnravelIndex (ravel t dims) dims = Inr t"
proof -
  have pos: "list_all (\<lambda>d. 0 < d) dims" by (rule dims_ok_pos [OF assms(1)])
  have b: "0 \<le> ravel t dims" "ravel t dims < prod_list dims"
    using ravel_bounds [OF pos assms(2)] by simp_all
  then have "ravel t dims \<le> max_int64"
    using assms(1) by (simp add: dims_ok_def)
  then have "UnravelIndex (ravel t dims) dims = Inr (unravel (ravel t dims) dims)"
    using UnravelIndex_unravel [OF assms(1) b(1)] by simp
  then show ?thesis
    using b unravel_ravel [OF pos assms(2)] by simp
qed

text \<open>
  Where the product of the cardinalities is not representable the loop variable
  \<open>denom\<close> wraps around: it can become 0, and the next division panics, or negative,
  and the next component is negative. This is why \<open>dims_ok\<close> asks for a representable
  product.
\<close>

lemma UnravelIndex_wrapped_denom_zero:
  "UnravelIndex 0 [4294967296, 4294967296, 5] = Inl DivideByZero"
  by (simp add: UnravelIndex_def go_quot_def go_rem_def wrap64_def
      signed_divide_int_def signed_modulo_int_def)

lemma UnravelIndex_wrapped_denom_negative:
  "UnravelIndex 4611686018427387904 [3, 4611686018427387904, 5]
     = Inr [1, 1537228672809129301, - 1]"
  by (simp add: UnravelIndex_def go_quot_def go_rem_def wrap64_def
      signed_divide_int_def signed_modulo_int_def)

text \<open>
  Claim C1. For a dimension list of positive cardinalities (with a representable
  product) and an index \<open>i\<close> with \<open>0 \<le> i < \<Prod> dims\<close>, \<open>UnravelIndex\<close> returns a tuple
  \<open>idx\<close> with \<open>idx[k] = (i / \<Prod>\<^sub>j\<^sub><\<^sub>k dims[j]) mod dims[k]\<close>, so \<open>idx[0] = i mod dims[0]\<close>
  varies fastest; every \<open>idx[k]\<close> lies in \<open>[0, dims[k])\<close>; re-encoding \<open>idx\<close> through the
  dimension strides gives \<open>i\<close> back; and the mapping is a bijection from \<open>[0, \<Prod> dims)\<close>
  onto the Cartesian product of the ranges \<open>[0, dims[k])\<close>.
\<close>

theorem UnravelIndex_bijection:
  assumes "dims_ok dims" and "0 \<le> i" and "i < prod_list dims"
  shows "(\<exists>idx. UnravelIndex i dims = Inr idx \<and> length idx = length dims
            \<and> (\<forall>k<length dims. idx ! k = (i div prod_list (take k dims)) mod (dims ! k)
                  \<and> 0 \<le> idx ! k \<and> idx ! k < dims ! k)
            \<and> ravel idx dims = i)
         \<and> bij_betw (\<lambda>n. UnravelIndex n dims) {0..<prod_list dims} (Inr ` {t. in_box dims t})"
proof -
  have pos: "list_all (\<lambda>d. 0 < d) dims" by (rule dims_ok_pos [OF assms(1)])
  have top: "prod_list dims \<le> max_int64" using assms(1) by (simp add: dims_ok_def)
  have U: "UnravelIndex n dims = Inr (unravel n dims)" if "n \<in> {0..<prod_list dims}" for n
    using that top by (intro UnravelIndex_unravel [OF assms(1)]) simp_all
  have R: "ravel (unravel n dims) dims = n" if "n \<in> {0..<prod_list dims}" for n
    using that by (simp add: ravel_unravel [OF pos])
  have i: "i \<in> {0..<prod_list dims}" using assms(2,3) by simp
  have first: "\<exists>idx. UnravelIndex i dims = Inr idx \<and> length idx = length dims
            \<and> (\<forall>k<length dims. idx ! k = (i div prod_list (take k dims)) mod (dims ! k)
                  \<and> 0 \<le> idx ! k \<and> idx ! k < dims ! k)
            \<and> ravel idx dims = i"
  proof (intro exI conjI allI impI)
    show "UnravelIndex i dims = Inr (unravel i dims)" by (rule U [OF i])
    show "length (unravel i dims) = length dims" by (rule length_unravel)
    show "ravel (unravel i dims) dims = i" by (rule R [OF i])
  next
    fix k assume k: "k < length dims"
    show "unravel i dims ! k = i div prod_list (take k dims) mod dims ! k"
      by (rule unravel_nth [OF pos k])
    show "0 \<le> unravel i dims ! k" "unravel i dims ! k < dims ! k"
      using in_box_nth [OF unravel_in_box [OF pos] k] by simp_all
  qed
  have inj: "inj_on (\<lambda>n. UnravelIndex n dims) {0..<prod_list dims}"
  proof (rule inj_onI)
    fix m n
    assume m: "m \<in> {0..<prod_list dims}" and n: "n \<in> {0..<prod_list dims}"
      and eq: "UnravelIndex m dims = UnravelIndex n dims"
    have "unravel m dims = unravel n dims"
      using eq U [OF m] U [OF n] by simp
    then have "ravel (unravel m dims) dims = ravel (unravel n dims) dims" by simp
    then show "m = n" using R [OF m] R [OF n] by simp
  qed
  have img: "(\<lambda>n. UnravelIndex n dims) ` {0..<prod_list dims} = Inr ` {t. in_box dims t}"
  proof (intro equalityI subsetI)
    fix y assume "y \<in> (\<lambda>n. UnravelIndex n dims) ` {0..<prod_list dims}"
    then obtain n where n: "n \<in> {0..<prod_list dims}" and y: "y = UnravelIndex n dims"
      by blast
    have "in_box dims (unravel n dims)" by (rule unravel_in_box [OF pos])
    then show "y \<in> Inr ` {t. in_box dims t}"
      using y U [OF n] by simp
  next
    fix y :: "go_panic + int list"
    assume "y \<in> Inr ` {t. in_box dims t}"
    then obtain t where t: "in_box dims t" and y: "y = Inr t" by blast
    have "ravel t dims \<in> {0..<prod_list dims}" "UnravelIndex (ravel t dims) dims = Inr t"
      using UnravelIndex_ravel [OF assms(1) t] by simp_all
    then show "y \<in> (\<lambda>n. UnravelIndex n dims) ` {0..<prod_list dims}"
      using y by (metis (mono_tags, lifting) image_eqI)
  qed
  show ?thesis
    using first inj img by (simp add: bij_betw_def)
qed

theorem UnravelIndex_bijection_witness:
  "dims_ok [5, 4, 3] \<and> (0::int) \<le> 37 \<and> (37::int) < prod_list [5, 4, 3]
   \<and> UnravelIndex 37 [5, 4, 3] = Inr [2, 3, 1] \<and> ravel [2, 3, 1] [5, 4, 3] = 37
   \<and> bij_betw (\<lambda>n. UnravelIndex n [5, 4, 3]) {0..<60} (Inr ` {t. in_box [5, 4, 3] t})"
proof -
  have h1: "dims_ok [5, 4, 3]" by (simp add: dims_ok_def max_int64_def)
  have h2: "(0::int) \<le> 37" by simp
  have h3: "(37::int) < prod_list [5, 4, 3]" by simp
  have ev: "UnravelIndex 37 [5, 4, 3] = Inr [2, 3, 1]"
    by (simp add: UnravelIndex_def go_quot_def go_rem_def wrap64_def
        signed_divide_int_def signed_modulo_int_def)
  show ?thesis
    using UnravelIndex_bijection [OF h1 h2 h3] h1 ev by simp
qed

text \<open>
  Claim C10 does not hold for every dimension list of positive cardinalities. With
  \<open>dim = [65536, 65536, 65536, 65536, 2]\<close> the loop variable \<open>denom\<close> is \<open>2\<^sup>6\<^sup>4\<close> after four
  steps, which wraps around to 0, and the fifth step divides by it: the call panics at
  every index, here at 7. With \<open>dim = [3, 2\<^sup>6\<^sup>2, 5]\<close> the variable wraps around to
  \<open>- 2\<^sup>6\<^sup>2\<close>, and at the index \<open>2\<^sup>6\<^sup>2\<close> the last component is \<open>- 1\<close>.
\<close>

theorem UnravelIndex_total_counterexample:
  "list_all (\<lambda>d. 0 < d) [65536, 65536, 65536, 65536, 2 :: int]
   \<and> (0 :: int) \<le> 7 \<and> 7 \<le> max_int64
   \<and> UnravelIndex 7 [65536, 65536, 65536, 65536, 2] = Inl DivideByZero
   \<and> list_all (\<lambda>d. 0 < d) [3, 4611686018427387904, 5 :: int]
   \<and> 4611686018427387904 \<le> max_int64
   \<and> UnravelIndex 4611686018427387904 [3, 4611686018427387904, 5]
       = Inr [1, 1537228672809129301, - 1]"
  by (simp add: UnravelIndex_def go_quot_def go_rem_def wrap64_def max_int64_def
      signed_divide_int_def signed_modulo_int_def)

text \<open>
  Claim C10, as amended. \<open>UnravelIndex\<close> is total for every nonnegative index, also at or
  beyond the product of the cardinalities, and every dimension list whose entries are
  all positive and whose product is representable as an \<open>int\<close>: it returns a list as long
  as the dimension list, and every component \<open>idx[k]\<close> satisfies \<open>0 \<le> idx[k] < dims[k]\<close>.
\<close>

theorem UnravelIndex_total:
  assumes "dims_ok dims" and "0 \<le> index1" and "index1 \<le> max_int64"
  shows "\<exists>idx. UnravelIndex index1 dims = Inr idx \<and> length idx = length dims
           \<and> (\<forall>k<length dims. 0 \<le> idx ! k \<and> idx ! k < dims ! k)"
proof (intro exI conjI allI impI)
  have pos: "list_all (\<lambda>d. 0 < d) dims" by (rule dims_ok_pos [OF assms(1)])
  show "UnravelIndex index1 dims = Inr (unravel index1 dims)"
    by (rule UnravelIndex_unravel [OF assms])
  show "length (unravel index1 dims) = length dims" by (rule length_unravel)
  fix k assume k: "k < length dims"
  show "0 \<le> unravel index1 dims ! k" "unravel index1 dims ! k < dims ! k"
    using in_box_nth [OF unravel_in_box [OF pos] k] by simp_all
qed

theorem UnravelIndex_total_witness:
  "dims_ok [5, 4, 3] \<and> (0::int) \<le> 1000 \<and> 1000 \<le> max_int64
   \<and> UnravelIndex 1000 [5, 4, 3] = Inr [0, 0, 2]
   \<and> (\<exists>idx. UnravelIndex 1000 [5, 4, 3] = Inr idx \<and> length idx = 3
           \<and> (\<forall>k<3. 0 \<le> idx ! k \<and> idx ! k < [5, 4, 3] ! k))"
proof -
  have h1: "dims_ok [5, 4, 3]" by (simp add: dims_ok_def max_int64_def)
  have h2: "(0::int) \<le> 1000" by simp
  have h3: "1000 \<le> max_int64" by (simp add: max_int64_def)
  have ev: "UnravelIndex 1000 [5, 4, 3] = Inr [0, 0, 2]"
    by (simp add: UnravelIndex_def go_quot_def go_rem_def wrap64_def
        signed_divide_int_def signed_modulo_int_def)
  have "\<exists>idx. UnravelIndex 1000 [5, 4, 3] = Inr idx \<and> length idx = length [5, 4, 3 :: int]
           \<and> (\<forall>k<length [5, 4, 3 :: int]. 0 \<le> idx ! k \<and> idx ! k < [5, 4, 3] ! k)"
    by (rule UnravelIndex_total [OF h1 h2 h3])
  then show ?thesis
    using h1 h3 ev by simp
qed

section \<open>Properties of query sets\<close>

lemma wrap_cong: "((a + K) mod M - K) mod M = a mod (M::int)"
proof -
  have "((a + K) mod M - K) mod M = (a + K - K) mod M"
    by (rule mod_diff_left_eq)
  then show ?thesis by simp
qed

lemma wrap_mult_cong:
  "(((a + K) mod M - K) * b + K) mod M = (a * b + K) mod (M::int)"
proof -
  have "((a + K) mod M - K) mod M = a mod M" by (rule wrap_cong)
  then have "(((a + K) mod M - K) * b) mod M = (a * b) mod M"
    by (rule mod_mult_cong) (rule refl)
  then show ?thesis
    by (rule mod_add_cong) (rule refl)
qed

lemma wrap64_mult_left: "wrap64 (wrap64 a * b) = wrap64 (a * b)"
  unfolding wrap64_def by (simp only: wrap_mult_cong)

lemma iterations_loop_wrap:
  "iterations_loop (wrap64 x) as = wrap64 (x * prod_list (map go_len as))"
proof (induction as arbitrary: x)
  case Nil
  then show ?case by simp
next
  case (Cons a as)
  show ?case
    using Cons.IH [of "x * go_len a"] by (simp add: wrap64_mult_left mult.assoc)
qed

lemma prod_go_len_nonneg: "0 \<le> prod_list (map go_len (as :: 'a list list))"
  by (induction as) (simp_all add: go_len_def)

lemma iterations_NewQuerySet:
  "grids_ok argsets \<Longrightarrow>
     iterations (NewQuerySet name fmt argsets) = prod_list (map go_len argsets)"
proof -
  assume ok: "grids_ok argsets"
  have "iterations_loop (wrap64 1) argsets = wrap64 (1 * prod_list (map go_len argsets))"
    by (rule iterations_loop_wrap)
  moreover have "wrap64 1 = 1" by (simp add: wrap64_def)
  moreover have "wrap64 (prod_list (map go_len argsets)) = prod_list (map go_len argsets)"
    using ok prod_go_len_nonneg [of argsets] by (intro wrap64_id) (simp_all add: grids_ok_def)
  ultimately show ?thesis
    by (simp add: NewQuerySet_def)
qed

lemma query_args_Inr:
  assumes "\<forall>k\<in>set ks. k < length (ArgSets s) \<and> k < length inds
             \<and> 0 \<le> inds ! k \<and> inds ! k < go_len (ArgSets s ! k)"
  shows "query_args s inds (map int ks)
           = Inr (map (\<lambda>k. IfaceInt (ArgSets s ! k ! nat (inds ! k))) ks)"
  using assms by (induction ks) (simp_all add: go_index_def go_len_def)

lemma map_nth_zip:
  "length xs = length ys \<Longrightarrow>
     map (\<lambda>k. f (xs ! k) (ys ! k)) [0..<length xs] = map (\<lambda>(x, y). f x y) (zip xs ys)"
proof -
  assume len: "length xs = length ys"
  have "map (\<lambda>(x, y). f x y) (zip xs ys)
      = map (\<lambda>(x, y). f x y) (map (nth (zip xs ys)) [0..<length (zip xs ys)])"
    by (simp only: map_nth)
  also have "\<dots> = map (\<lambda>k. f (xs ! k) (ys ! k)) [0..<length xs]"
    using len by simp
  finally show ?thesis by simp
qed

lemma args_at_zip:
  "length xss = length is \<Longrightarrow> args_at xss is = map (\<lambda>(xs, i). xs ! nat i) (zip xss is)"
  by (induction xss "is" rule: args_at.induct) simp_all

lemma render_args_in_range:
  assumes pos: "list_all (\<lambda>a. a \<noteq> []) argsets" and ok: "grids_ok argsets"
    and n: "0 \<le> n" "n < prod_list (map go_len argsets)"
  shows "render_args (NewQuerySet name fmt argsets) n
           = Inr (map IfaceInt (args_at argsets (unravel n (map go_len argsets))))"
proof -
  let ?s = "NewQuerySet name fmt argsets"
  let ?lens = "map go_len argsets"
  let ?inds = "unravel n ?lens"
  have lpos: "list_all (\<lambda>d. 0 < d) ?lens"
    using pos by (simp add: list_all_iff go_len_def)
  have dok: "dims_ok ?lens"
    using lpos ok by (simp add: dims_ok_def grids_ok_def)
  have nmax: "n \<le> max_int64"
    using n ok by (simp add: grids_ok_def)
  have U: "UnravelIndex n ?lens = Inr ?inds"
    by (rule UnravelIndex_unravel [OF dok n(1) nmax])
  have box: "in_box ?lens ?inds" by (rule unravel_in_box [OF lpos])
  have len: "length ?inds = length argsets" by (simp add: length_unravel)
  have rng: "\<forall>k\<in>set [0..<length argsets]. k < length (ArgSets ?s) \<and> k < length ?inds
             \<and> 0 \<le> ?inds ! k \<and> ?inds ! k < go_len (ArgSets ?s ! k)"
    using in_box_nth [OF box] len by (simp add: NewQuerySet_def)
  have "query_args ?s ?inds (map int [0..<length argsets])
          = Inr (map (\<lambda>k. IfaceInt (ArgSets ?s ! k ! nat (?inds ! k))) [0..<length argsets])"
    by (rule query_args_Inr [OF rng])
  also have "map (\<lambda>k. IfaceInt (ArgSets ?s ! k ! nat (?inds ! k))) [0..<length argsets]
          = map (\<lambda>k. IfaceInt (argsets ! k ! nat (?inds ! k))) [0..<length argsets]"
    by (simp add: NewQuerySet_def)
  also have "\<dots> = map (\<lambda>(xs, i). IfaceInt (xs ! nat i)) (zip argsets ?inds)"
    using map_nth_zip [of argsets ?inds "\<lambda>xs i. IfaceInt (xs ! nat i)"] len by simp
  also have "\<dots> = map IfaceInt (args_at argsets ?inds)"
    using len by (simp add: args_at_zip case_prod_unfold)
  finally have Q: "query_args ?s ?inds (map int [0..<length argsets])
          = Inr (map IfaceInt (args_at argsets ?inds))" .
  show ?thesis
    using U Q by (simp add: render_args_def loop_range_def NewQuerySet_def go_len_def)
qed

lemma map_mod_div_upt:
  "0 < a \<Longrightarrow>
   map (\<lambda>n. F (n mod a) (n div a)) [0..<a * p]
     = concat (map (\<lambda>m. map (\<lambda>i. F i m) [0..<a]) [0..<p])"
proof (induction p)
  case 0
  then show ?case by simp
next
  case (Suc p)
  have "[0..<a * p + a] = [0..<a * p] @ [a * p..<a * p + a]"
    by (rule upt_add_eq_append) simp
  moreover have "[a * p..<a + a * p] = map (\<lambda>i. i + a * p) [0..<a]"
    by (rule map_add_upt [symmetric])
  ultimately have split: "[0..<a * Suc p] = [0..<a * p] @ map (\<lambda>i. i + a * p) [0..<a]"
    by (simp only: mult_Suc_right add.commute)
  have last: "map (\<lambda>n. F (n mod a) (n div a)) (map (\<lambda>i. i + a * p) [0..<a])
      = map (\<lambda>i. F i p) [0..<a]"
    using Suc.prems by (simp add: o_def)
  have "map (\<lambda>n. F (n mod a) (n div a)) [0..<a * Suc p]
      = map (\<lambda>n. F (n mod a) (n div a)) [0..<a * p] @ map (\<lambda>i. F i p) [0..<a]"
    by (simp only: split map_append last)
  also have "\<dots> = concat (map (\<lambda>m. map (\<lambda>i. F i m) [0..<a]) [0..<p]) @ map (\<lambda>i. F i p) [0..<a]"
    by (simp only: Suc.IH [OF Suc.prems])
  also have "\<dots> = concat (map (\<lambda>m. map (\<lambda>i. F i m) [0..<a]) [0..<Suc p])"
    by simp
  finally show ?case .
qed

lemma cartesian_enumeration:
  assumes "list_all (\<lambda>a. a \<noteq> []) argsets"
  shows "map (\<lambda>n. args_at argsets (unravel (int n) (map go_len argsets)))
           [0..<prod_list (map length argsets)]
         = cartesian argsets"
  using assms
proof (induction argsets)
  case Nil
  then show ?case by simp
next
  case (Cons a as)
  let ?R = "\<lambda>m. args_at as (unravel (int m) (map go_len as))"
  have a: "0 < length a" and as: "list_all (\<lambda>a. a \<noteq> []) as"
    using Cons.prems by simp_all
  have step: "args_at (a # as) (unravel (int n) (go_len a # map go_len as))
                = a ! (n mod length a) # ?R (n div length a)" for n
    by (simp add: go_len_def zmod_int [symmetric] zdiv_int [symmetric] del: of_nat_mod of_nat_div)
  have "map (\<lambda>n. args_at (a # as) (unravel (int n) (map go_len (a # as))))
          [0..<prod_list (map length (a # as))]
      = map (\<lambda>n. a ! (n mod length a) # ?R (n div length a))
          [0..<length a * prod_list (map length as)]"
    by (simp only: step list.map prod_list.Cons)
  also have "\<dots> = concat (map (\<lambda>m. map (\<lambda>i. a ! i # ?R m) [0..<length a])
                        [0..<prod_list (map length as)])"
    by (rule map_mod_div_upt [OF a, of "\<lambda>i m. a ! i # ?R m"])
  also have "\<dots> = concat (map (\<lambda>m. map (\<lambda>x. x # ?R m) a) [0..<prod_list (map length as)])"
  proof -
    have "map (\<lambda>i. a ! i # r) [0..<length a] = map (\<lambda>x. x # r) a" for r
    proof -
      have "map (\<lambda>i. a ! i # r) [0..<length a] = map (\<lambda>x. x # r) (map (nth a) [0..<length a])"
        by (simp add: o_def)
      then show ?thesis by (simp only: map_nth)
    qed
    then show ?thesis by simp
  qed
  also have "\<dots> = concat (map (\<lambda>rest. map (\<lambda>x. x # rest) a)
                        (map ?R [0..<prod_list (map length as)]))"
    by (simp add: o_def)
  also have "\<dots> = cartesian (a # as)"
    using Cons.IH [OF as] by simp
  finally show ?case .
qed

lemma cartesian_empty_grid:
  "\<not> list_all (\<lambda>a. a \<noteq> []) argsets \<Longrightarrow> cartesian argsets = []"
  by (induction argsets) auto

lemma prod_length_zero:
  "\<not> list_all (\<lambda>a. a \<noteq> []) argsets \<Longrightarrow> prod_list (map length argsets) = 0"
  by (induction argsets) auto

lemma mset_concat_map_Cons:
  "mset (concat (map (\<lambda>x. f x # g x) xs)) = mset (map f xs) + mset (concat (map g xs))"
  by (induction xs) simp_all

lemma mset_concat_swap:
  "mset (concat (map (\<lambda>r. map (\<lambda>x. h x r) xs) rs))
     = mset (concat (map (\<lambda>x. map (h x) rs) xs))"
proof (induction rs)
  case Nil
  then show ?case by (induction xs) simp_all
next
  case (Cons r rs)
  show ?case
    using Cons by (simp add: mset_concat_map_Cons)
qed

lemma mset_cartesian: "mset (cartesian xss) = mset (product_lists xss)"
proof (induction xss)
  case Nil
  then show ?case by simp
next
  case (Cons xs xss)
  have "mset (cartesian (xs # xss))
      = mset (concat (map (\<lambda>x. map (Cons x) (cartesian xss)) xs))"
    using mset_concat_swap [of "\<lambda>x r. x # r" xs "cartesian xss"] by simp
  also have "\<dots> = mset (concat (map (\<lambda>x. map (Cons x) (product_lists xss)) xs))"
  proof -
    have "mset (map (Cons x) (cartesian xss)) = mset (map (Cons x) (product_lists xss))" for x
      using Cons.IH by (simp only: mset_map)
    then show ?thesis
      by (induction xs) simp_all
  qed
  finally show ?case by simp
qed

lemma prod_go_len: "prod_list (map go_len argsets) = int (prod_list (map length argsets))"
  by (induction argsets) (simp_all add: go_len_def)

lemma QueryN_in_range:
  assumes "list_all (\<lambda>a. a \<noteq> []) argsets" and "grids_ok argsets"
    and "n < prod_list (map length argsets)"
  shows "QueryN sprintf (NewQuerySet name fmt argsets) (int n)
           = Inr (sprintf (fmt @ ''\<newline>'')
                   (map IfaceInt (args_at argsets (unravel (int n) (map go_len argsets)))))"
proof -
  have "int n < prod_list (map go_len argsets)"
    using assms(3) by (simp add: prod_go_len)
  then have "render_args (NewQuerySet name fmt argsets) (int n)
           = Inr (map IfaceInt (args_at argsets (unravel (int n) (map go_len argsets))))"
    by (intro render_args_in_range [OF assms(1,2)]) simp_all
  then show ?thesis
    by (simp add: QueryN_def NewQuerySet_def)
qed

lemma QueryN_list:
  assumes "grids_ok argsets"
  shows "map (QueryN sprintf (NewQuerySet name fmt argsets))
           (loop_range (iterations (NewQuerySet name fmt argsets)))
         = map (\<lambda>args. Inr (sprintf (fmt @ ''\<newline>'') (map IfaceInt args)))
             (cartesian argsets)"
proof (cases "list_all (\<lambda>a. a \<noteq> []) argsets")
  case True
  let ?P = "prod_list (map length argsets)"
  let ?G = "\<lambda>args. Inr (sprintf (fmt @ ''\<newline>'') (map IfaceInt args)) :: go_panic + string"
  have it: "iterations (NewQuerySet name fmt argsets) = int ?P"
    using iterations_NewQuerySet [OF assms] by (simp add: prod_go_len)
  have "map (QueryN sprintf (NewQuerySet name fmt argsets)) (map int [0..<?P])
      = map (\<lambda>n. ?G (args_at argsets (unravel (int n) (map go_len argsets)))) [0..<?P]"
    using QueryN_in_range [OF True assms] by (simp add: o_def)
  also have "\<dots> = map ?G (map (\<lambda>n. args_at argsets (unravel (int n) (map go_len argsets)))
                         [0..<?P])"
    by (simp add: o_def)
  also have "\<dots> = map ?G (cartesian argsets)"
    by (simp only: cartesian_enumeration [OF True])
  finally show ?thesis
    by (simp add: it loop_range_def)
next
  case False
  have "iterations (NewQuerySet name fmt argsets) = 0"
    using iterations_NewQuerySet [OF assms] prod_length_zero [OF False]
    by (simp add: prod_go_len)
  then show ?thesis
    using cartesian_empty_grid [OF False] by (simp add: loop_range_def)
qed

text \<open>
  Claim C2. For a QuerySet that \<open>NewQuerySet\<close> builds from argument grids
  \<open>A\<^sub>0 \<dots> A\<^sub>D\<^sub>-\<^sub>1\<close> (the size of whose product is representable), the iteration count is
  \<open>|A\<^sub>0| \<times> \<dots> \<times> |A\<^sub>D\<^sub>-\<^sub>1|\<close>; \<open>QueryN\<close> never panics on \<open>0 \<le> n < size\<close>; the queries
  \<open>QueryN 0, QueryN 1, \<dots>\<close> are the renderings of the combinations of the Cartesian
  product, each combination once, first dimension fastest, the values handed to the
  formatter in dimension order; as multisets, the queries are the renderings of the
  library's \<open>product_lists\<close> of the grids.
\<close>

theorem NewQuerySet_enumerates_product:
  assumes "grids_ok argsets"
  shows "iterations (NewQuerySet name fmt argsets) = prod_list (map go_len argsets)
       \<and> map (QueryN sprintf (NewQuerySet name fmt argsets))
           (loop_range (iterations (NewQuerySet name fmt argsets)))
         = map (\<lambda>args. Inr (sprintf (fmt @ ''\<newline>'') (map IfaceInt args)))
             (cartesian argsets)
       \<and> mset (map (QueryN sprintf (NewQuerySet name fmt argsets))
           (loop_range (iterations (NewQuerySet name fmt argsets))))
         = image_mset (\<lambda>args. Inr (sprintf (fmt @ ''\<newline>'') (map IfaceInt args)))
             (mset (product_lists argsets))"
proof -
  have "mset (map (\<lambda>args. Inr (sprintf (fmt @ ''\<newline>'') (map IfaceInt args)) :: go_panic + string)
          (cartesian argsets))
      = image_mset (\<lambda>args. Inr (sprintf (fmt @ ''\<newline>'') (map IfaceInt args)))
          (mset (product_lists argsets))"
    by (simp only: mset_map mset_cartesian)
  then show ?thesis
    using iterations_NewQuerySet [OF assms] QueryN_list [OF assms] by simp
qed

theorem NewQuerySet_enumerates_product_witness:
  "grids_ok [[10, 11], [1992, 1993, 1994]]
   \<and> iterations (NewQuerySet ''2.x'' ''B(%d, %d)'' [[10, 11], [1992, 1993, 1994]]) = 6
   \<and> map (QueryN Sprintf (NewQuerySet ''2.x'' ''B(%d, %d)'' [[10, 11], [1992, 1993, 1994]]))
        (loop_range (iterations (NewQuerySet ''2.x'' ''B(%d, %d)'' [[10, 11], [1992, 1993, 1994]])))
     = [Inr ''B(10, 1992)\<newline>'', Inr ''B(11, 1992)\<newline>'', Inr ''B(10, 1993)\<newline>'',
        Inr ''B(11, 1993)\<newline>'', Inr ''B(10, 1994)\<newline>'', Inr ''B(11, 1994)\<newline>'']"
proof -
  have h: "grids_ok [[10, 11], [1992, 1993, 1994]]"
    by (simp add: grids_ok_def go_len_def max_int64_def)
  show ?thesis
    using NewQuerySet_enumerates_product [OF h, of "''2.x''" "''B(%d, %d)''" Sprintf] h
    by (clarsimp simp: go_len_def show_int_def extra_operands_def)
qed

lemma query_args_cong:
  "ArgSets s = ArgSets s' \<Longrightarrow> query_args s inds ks = query_args s' inds ks"
  by (induction ks) (simp_all split: sum.splits)

lemma render_args_cong:
  "ArgSets s = ArgSets s' \<Longrightarrow> lengths s = lengths s' \<Longrightarrow> dim_count s = dim_count s' \<Longrightarrow>
     render_args s n = render_args s' n"
  using query_args_cong [of s s'] by (simp add: render_args_def split: sum.splits)

text \<open>
  Claim C6 does not hold of the program: \<open>NewQuerySet\<close> has no failure outcome and does
  not look at the template. With the template \<open>Count()\<close>, which has no slot, and one
  dimension, construction returns an ordinary QuerySet of two iterations, and the
  mismatch reaches the formatter when \<open>QueryN\<close> renders.
\<close>

theorem NewQuerySet_slot_mismatch_counterexample:
  "template_slots ''Count()'' \<noteq> length [[1992, 1993 :: int]]
   \<and> NewQuerySet ''q'' ''Count()'' [[1992, 1993]]
       = \<lparr>Name = ''q'', Format = ''Count()'', ArgSets = [[1992, 1993]], setup_text = [],
          teardown_text = [], dim_count = 1, iterations = 2, lengths = [2]\<rparr>
   \<and> QueryN Sprintf (NewQuerySet ''q'' ''Count()'' [[1992, 1993]]) 0
       = Inr ''Count()\<newline>%!(EXTRA int=1992)''"
  by (simp add: NewQuerySet_def zero_QuerySet_def go_len_def wrap64_def QueryN_def
      render_args_def UnravelIndex_def go_quot_def go_rem_def go_index_def loop_range_def
      signed_divide_int_def signed_modulo_int_def extra_operands_def show_int_def)

lemma go_index_Inr:
  "go_index xs i = Inr v \<Longrightarrow> 0 \<le> i \<and> nat i < length xs \<and> v = xs ! nat i"
  by (auto simp: go_index_def split: if_splits)

lemma query_args_values:
  "query_args s inds ks = Inr args \<Longrightarrow>
     list_all2 (\<lambda>k a. 0 \<le> k \<and> nat k < length (ArgSets s)
                  \<and> (\<exists>v\<in>set (ArgSets s ! nat k). a = IfaceInt v)) ks args"
proof (induction ks arbitrary: args)
  case Nil
  then show ?case by simp
next
  case (Cons k ks)
  from Cons.prems obtain row i v rest where
    row: "go_index (ArgSets s) k = Inr row" and i: "go_index inds k = Inr i"
    and v: "go_index row i = Inr v" and rest: "query_args s inds ks = Inr rest"
    and args: "args = IfaceInt v # rest"
    by (auto split: sum.splits)
  have "0 \<le> k" "nat k < length (ArgSets s)" "row = ArgSets s ! nat k"
    using go_index_Inr [OF row] by simp_all
  moreover have "v \<in> set row"
    using go_index_Inr [OF v] by simp
  ultimately show ?case
    using Cons.IH [OF rest] args by auto
qed

lemma render_args_values:
  assumes "render_args (NewQuerySet name fmt argsets) n = Inr args"
  shows "length args = length argsets
       \<and> (\<forall>k<length argsets. \<exists>v\<in>set (argsets ! k). args ! k = IfaceInt v)"
proof -
  obtain inds where
    "query_args (NewQuerySet name fmt argsets) inds (loop_range (go_len argsets)) = Inr args"
    using assms
    by (auto simp: render_args_def NewQuerySet_def zero_QuerySet_def split: sum.splits if_splits)
  then have all2: "list_all2 (\<lambda>k a. 0 \<le> k \<and> nat k < length argsets
                  \<and> (\<exists>v\<in>set (argsets ! nat k). a = IfaceInt v))
               (map int [0..<length argsets]) args"
    using query_args_values [of "NewQuerySet name fmt argsets" inds "loop_range (go_len argsets)" args]
    by (simp add: loop_range_def go_len_def NewQuerySet_def zero_QuerySet_def)
  then have len: "length args = length argsets"
    by (auto dest: list_all2_lengthD)
  moreover have "\<exists>v\<in>set (argsets ! k). args ! k = IfaceInt v" if "k < length argsets" for k
    using list_all2_nthD [OF all2, of k] that by simp
  ultimately show ?thesis by blast
qed

lemma iterations_range_nonempty:
  assumes "grids_ok argsets" and "0 \<le> n" and "n < iterations (NewQuerySet name fmt argsets)"
  shows "list_all (\<lambda>a. a \<noteq> []) argsets \<and> n < prod_list (map go_len argsets)"
proof -
  have it: "iterations (NewQuerySet name fmt argsets) = int (prod_list (map length argsets))"
    using iterations_NewQuerySet [OF assms(1)] by (simp add: prod_go_len)
  have nz: "prod_list (map length argsets) \<noteq> 0"
    using assms(2,3) unfolding it by linarith
  have "list_all (\<lambda>a. a \<noteq> []) argsets"
  proof (rule ccontr)
    assume "\<not> list_all (\<lambda>a. a \<noteq> []) argsets"
    then have "prod_list (map length argsets) = 0" by (rule prod_length_zero)
    then show False using nz by simp
  qed
  then show ?thesis
    using assms(3) unfolding it prod_go_len by simp
qed

text \<open>
  Claim C6, as amended. Constructing a QuerySet never fails and never inspects the
  template: for every name, template and grid list \<open>NewQuerySet\<close> returns a QuerySet that
  stores the template as it is, whose dimension count, cardinalities and iteration count
  come from the grids alone, the same for every template. The slots are not compared
  with the dimensions at construction. At render time, for every index of the
  iteration space (of representable size) \<open>QueryN\<close> and \<open>QueryResultN\<close> do render: they
  hand the template and exactly one value per dimension, taken from that dimension's
  grid, to the formatter, whatever the number of slots, and \<open>QueryResultN\<close> keeps those
  values as the record's inputs; where collecting the values panics, both panic alike.
\<close>

theorem NewQuerySet_ignores_template:
  "NewQuerySet name fmt argsets = (NewQuerySet name fmt' argsets)\<lparr>Format := fmt\<rparr>
   \<and> Format (NewQuerySet name fmt argsets) = fmt
   \<and> dim_count (NewQuerySet name fmt argsets) = go_len argsets
   \<and> lengths (NewQuerySet name fmt argsets) = map go_len argsets
   \<and> iterations (NewQuerySet name fmt argsets) = iterations_loop 1 argsets
   \<and> render_args (NewQuerySet name fmt argsets) n = render_args (NewQuerySet name fmt' argsets) n
   \<and> (\<forall>args. render_args (NewQuerySet name fmt argsets) n = Inr args \<longrightarrow>
          length args = length argsets
        \<and> (\<forall>k<length argsets. \<exists>v\<in>set (argsets ! k). args ! k = IfaceInt v)
        \<and> QueryN sprintf (NewQuerySet name fmt argsets) n
            = Inr (sprintf (fmt @ ''\<newline>'') args)
        \<and> QueryResultN sprintf (NewQuerySet name fmt argsets) n
            = Inr \<lparr>raw = sprintf (fmt @ ''\<newline>'') args, inputs = args,
                   outputs = [IfaceNil], err = None\<rparr>)
   \<and> (\<forall>p. render_args (NewQuerySet name fmt argsets) n = Inl p \<longrightarrow>
          QueryN sprintf (NewQuerySet name fmt argsets) n = Inl p
        \<and> QueryResultN sprintf (NewQuerySet name fmt argsets) n = Inl p)
   \<and> (grids_ok argsets \<and> 0 \<le> n \<and> n < iterations (NewQuerySet name fmt argsets) \<longrightarrow>
          render_args (NewQuerySet name fmt argsets) n
            = Inr (map IfaceInt (args_at argsets (unravel n (map go_len argsets)))))"
proof -
  have cong: "render_args (NewQuerySet name fmt argsets) n
                = render_args (NewQuerySet name fmt' argsets) n"
    by (rule render_args_cong) (simp_all add: NewQuerySet_def zero_QuerySet_def)
  have fields: "NewQuerySet name fmt argsets = (NewQuerySet name fmt' argsets)\<lparr>Format := fmt\<rparr>"
    "Format (NewQuerySet name fmt argsets) = fmt"
    "dim_count (NewQuerySet name fmt argsets) = go_len argsets"
    "lengths (NewQuerySet name fmt argsets) = map go_len argsets"
    "iterations (NewQuerySet name fmt argsets) = iterations_loop 1 argsets"
    by (simp_all add: NewQuerySet_def zero_QuerySet_def)
  have ok: "\<forall>args. render_args (NewQuerySet name fmt argsets) n = Inr args \<longrightarrow>
          length args = length argsets
        \<and> (\<forall>k<length argsets. \<exists>v\<in>set (argsets ! k). args ! k = IfaceInt v)
        \<and> QueryN sprintf (NewQuerySet name fmt argsets) n
            = Inr (sprintf (fmt @ ''\<newline>'') args)
        \<and> QueryResultN sprintf (NewQuerySet name fmt argsets) n
            = Inr \<lparr>raw = sprintf (fmt @ ''\<newline>'') args, inputs = args,
                   outputs = [IfaceNil], err = None\<rparr>"
  proof (intro allI impI)
    fix args assume r: "render_args (NewQuerySet name fmt argsets) n = Inr args"
    show "length args = length argsets
        \<and> (\<forall>k<length argsets. \<exists>v\<in>set (argsets ! k). args ! k = IfaceInt v)
        \<and> QueryN sprintf (NewQuerySet name fmt argsets) n
            = Inr (sprintf (fmt @ ''\<newline>'') args)
        \<and> QueryResultN sprintf (NewQuerySet name fmt argsets) n
            = Inr \<lparr>raw = sprintf (fmt @ ''\<newline>'') args, inputs = args,
                   outputs = [IfaceNil], err = None\<rparr>"
      using render_args_values [OF r] r fields(2)
      by (simp add: QueryN_def QueryResultN_def)
  qed
  have bad: "\<forall>p. render_args (NewQuerySet name fmt argsets) n = Inl p \<longrightarrow>
          QueryN sprintf (NewQuerySet name fmt argsets) n = Inl p
        \<and> QueryResultN sprintf (NewQuerySet name fmt argsets) n = Inl p"
    by (simp add: QueryN_def QueryResultN_def)
  have total: "grids_ok argsets \<and> 0 \<le> n \<and> n < iterations (NewQuerySet name fmt argsets) \<longrightarrow>
          render_args (NewQuerySet name fmt argsets) n
            = Inr (map IfaceInt (args_at argsets (unravel n (map go_len argsets))))"
  proof (intro impI)
    assume h: "grids_ok argsets \<and> 0 \<le> n \<and> n < iterations (NewQuerySet name fmt argsets)"
    then have g: "grids_ok argsets" and n0: "0 \<le> n"
      and n1: "n < iterations (NewQuerySet name fmt argsets)" by simp_all
    have "list_all (\<lambda>a. a \<noteq> []) argsets" "n < prod_list (map go_len argsets)"
      using iterations_range_nonempty [OF g n0 n1] by simp_all
    then show "render_args (NewQuerySet name fmt argsets) n
            = Inr (map IfaceInt (args_at argsets (unravel n (map go_len argsets))))"
      using g n0 by (intro render_args_in_range)
  qed
  show ?thesis
    using cong fields ok bad total by blast
qed

theorem NewQuerySet_ignores_template_witness:
  "render_args (NewQuerySet ''q'' ''Count()'' [[1992, 1993]]) 1 = Inr [IfaceInt 1993]
   \<and> template_slots ''Count()'' = 0
   \<and> length [IfaceInt 1993] = length [[1992, 1993 :: int]]
   \<and> QueryN Sprintf (NewQuerySet ''q'' ''Count()'' [[1992, 1993]]) 1
       = Inr ''Count()\<newline>%!(EXTRA int=1993)''
   \<and> QueryResultN Sprintf (NewQuerySet ''q'' ''Count()'' [[1992, 1993]]) 1
       = Inr \<lparr>raw = ''Count()\<newline>%!(EXTRA int=1993)'', inputs = [IfaceInt 1993],
              outputs = [IfaceNil], err = None\<rparr>"
proof -
  have r: "render_args (NewQuerySet ''q'' ''Count()'' [[1992, 1993]]) 1 = Inr [IfaceInt 1993]"
    by (simp add: NewQuerySet_def zero_QuerySet_def go_len_def wrap64_def
        render_args_def UnravelIndex_def go_quot_def go_rem_def go_index_def loop_range_def
        signed_divide_int_def signed_modulo_int_def)
  have s: "Sprintf ''Count()\<newline>'' [IfaceInt 1993] = ''Count()\<newline>%!(EXTRA int=1993)''"
    by (simp add: extra_operands_def show_int_def)
  show ?thesis
    using NewQuerySet_ignores_template
      [of "''q''" "''Count()''" "[[1992, 1993]]" "''Count()''" 1 Sprintf] r s
    by simp
qed

section \<open>Properties of the pipeline\<close>

subsection \<open>The producer\<close>

lemma chunks_Nil: "chunks n [] = []"
  by (simp add: chunks.simps)

lemma chunks_step:
  "0 < n \<Longrightarrow> xs \<noteq> [] \<Longrightarrow> chunks n xs = take n xs # chunks n (drop n xs)"
  by (subst chunks.simps) simp

lemma chunks_append_full:
  "0 < n \<Longrightarrow> length q = n \<Longrightarrow> chunks n (q @ rs) = q # chunks n rs"
  by (subst chunks_step) auto

lemma chunks_short:
  "q \<noteq> [] \<Longrightarrow> length q \<le> n \<Longrightarrow> chunks n q = [q]"
proof -
  assume q: "q \<noteq> []" and le: "length q \<le> n"
  then have "0 < n" by (cases q) simp_all
  then show ?thesis
    using q le by (simp add: chunks_step chunks_Nil)
qed

lemma concat_chunks: "0 < n \<Longrightarrow> concat (chunks n xs) = xs"
proof (induction n xs rule: chunks.induct)
  case (1 n xs)
  show ?case
  proof (cases "xs = []")
    case True
    then show ?thesis by (simp add: chunks_Nil)
  next
    case False
    then show ?thesis
      using 1 by (simp add: chunks_step)
  qed
qed




lemma producer_loop_chunks:
  assumes "0 < b" and "map qrn ns = map Inr rs" and "length q < nat b"
  shows "producer_loop qrn b ns q (int (length q))
           = Inr (map Send (chunks (nat b) (q @ rs)) @ [Close])"
  using assms(2,3)
proof (induction ns arbitrary: q rs)
  case Nil
  then have rs: "rs = []" by simp
  show ?case
  proof (cases "q = []")
    case True
    then show ?thesis by (simp add: rs chunks_Nil)
  next
    case False
    then have "chunks (nat b) q = [q]"
      using Nil.prems(2) by (intro chunks_short) simp_all
    then show ?thesis using False by (simp add: rs)
  qed
next
  case (Cons n ns)
  from Cons.prems(1) obtain r rs' where rs: "rs = r # rs'" and r: "qrn n = Inr r"
    and rest: "map qrn ns = map Inr rs'"
    by (cases rs) auto
  show ?case
  proof (cases "int (length q) + 1 = b")
    case True
    then have full: "length (q @ [r]) = nat b" by simp
    have "producer_loop qrn b ns [] (int (length ([] :: QueryResult list)))
            = Inr (map Send (chunks (nat b) ([] @ rs')) @ [Close])"
      using assms(1) by (intro Cons.IH [OF rest]) simp
    moreover have "chunks (nat b) ((q @ [r]) @ rs') = (q @ [r]) # chunks (nat b) rs'"
      using assms(1) full by (intro chunks_append_full) simp_all
    ultimately show ?thesis
      using True r by (simp add: rs)
  next
    case False
    then have short: "length (q @ [r]) < nat b"
      using Cons.prems(2) by simp
    have "producer_loop qrn b ns (q @ [r]) (int (length (q @ [r])))
            = Inr (map Send (chunks (nat b) ((q @ [r]) @ rs')) @ [Close])"
      by (rule Cons.IH [OF rest short])
    then show ?thesis
      using False r by (simp add: rs add.commute)
  qed
qed

lemma sent_map_Send: "sent (map Send xs @ [Close]) = xs"
  by (induction xs) simp_all

lemma wf_iterations:
  "wf_QuerySet qs \<Longrightarrow> n < iterations qs \<Longrightarrow> 0 \<le> n \<Longrightarrow>
     iterations qs = prod_list (map go_len (ArgSets qs))"
  unfolding wf_QuerySet_def by linarith

lemma wf_render_args_cong:
  "wf_QuerySet qs \<Longrightarrow> render_args qs n = render_args (NewQuerySet [] [] (ArgSets qs)) n"
  unfolding wf_QuerySet_def
  by (rule render_args_cong) (simp_all add: NewQuerySet_def zero_QuerySet_def)

lemma wf_render_args:
  assumes "wf_QuerySet qs" and "0 \<le> n" and "n < iterations qs"
  shows "render_args qs n
           = Inr (map IfaceInt (args_at (ArgSets qs) (unravel n (map go_len (ArgSets qs)))))"
proof -
  have it: "iterations qs = prod_list (map go_len (ArgSets qs))"
    by (rule wf_iterations [OF assms(1,3,2)])
  have ok: "grids_ok (ArgSets qs)" using assms(1) unfolding wf_QuerySet_def by blast
  have "int (prod_list (map length (ArgSets qs))) \<noteq> 0"
    using assms(2,3) unfolding it prod_go_len by linarith
  then have nz: "prod_list (map length (ArgSets qs)) \<noteq> 0" by simp
  have pos: "list_all (\<lambda>a. a \<noteq> []) (ArgSets qs)"
  proof (rule ccontr)
    assume "\<not> list_all (\<lambda>a. a \<noteq> []) (ArgSets qs)"
    then have "prod_list (map length (ArgSets qs)) = 0" by (rule prod_length_zero)
    then show False using nz by simp
  qed
  have lt: "n < prod_list (map go_len (ArgSets qs))"
    using assms(3) unfolding it .
  show ?thesis
    unfolding wf_render_args_cong [OF assms(1)]
    by (rule render_args_in_range [OF pos ok assms(2) lt])
qed

lemma wf_QueryResultN:
  assumes "wf_QuerySet qs"
  shows "map (QueryResultN sprintf qs) (loop_range (iterations qs))
           = map Inr (map (record_at sprintf qs) (loop_range (iterations qs)))"
proof -
  have "QueryResultN sprintf qs n = Inr (record_at sprintf qs n)"
    if "n \<in> set (loop_range (iterations qs))" for n
  proof -
    have "0 \<le> n" "n < iterations qs" using that by (auto simp: loop_range_def)
    then show ?thesis
      using wf_render_args [OF assms] by (simp add: QueryResultN_def record_at_def Let_def)
  qed
  then show ?thesis by simp
qed

lemma wf_NewQuerySet: "grids_ok argsets \<Longrightarrow> wf_QuerySet (NewQuerySet name fmt argsets)"
  using iterations_NewQuerySet [of argsets name fmt]
  by (simp add: wf_QuerySet_def) (simp add: NewQuerySet_def zero_QuerySet_def)

lemma wf_NewRegisterQuerySet:
  "grids_ok argsets \<Longrightarrow> wf_QuerySet (NewRegisterQuerySet name fmt su td argsets)"
  using wf_NewQuerySet [of argsets name fmt]
  by (simp add: wf_QuerySet_def NewRegisterQuerySet_def)

lemma wf_zero_QuerySet: "wf_QuerySet zero_QuerySet"
  by (simp add: wf_QuerySet_def zero_QuerySet_def grids_ok_def go_len_def max_int64_def)


lemma producer_wf:
  assumes "wf_QuerySet qs" and "1 \<le> batchSize"
  shows "producer sprintf qs batchSize
           = Inr (map Send (chunks (nat batchSize)
                   (map (record_at sprintf qs) (loop_range (iterations qs)))) @ [Close])"
proof -
  have "producer_loop (QueryResultN sprintf qs) batchSize (loop_range (iterations qs)) []
          (int (length ([] :: QueryResult list)))
        = Inr (map Send (chunks (nat batchSize)
                 ([] @ map (record_at sprintf qs) (loop_range (iterations qs)))) @ [Close])"
    using assms(2) by (intro producer_loop_chunks wf_QueryResultN [OF assms(1)]) simp_all
  then show ?thesis
    using assms(2) by (simp add: producer_def)
qed



subsection \<open>The worker and the number of results\<close>

lemma producer_two:
  "producer Sprintf (NewQuerySet ''q'' ''Sum(%d)'' [[1, 2]]) 2
     = Inr [Send [\<lparr>raw = ''Sum(1)\<newline>'', inputs = [IfaceInt 1], outputs = [IfaceNil], err = None\<rparr>,
                  \<lparr>raw = ''Sum(2)\<newline>'', inputs = [IfaceInt 2], outputs = [IfaceNil], err = None\<rparr>],
            Close]"
  by (simp add: producer_def NewQuerySet_def zero_QuerySet_def go_len_def wrap64_def
      QueryResultN_def render_args_def UnravelIndex_def go_quot_def go_rem_def go_index_def
      loop_range_def signed_divide_int_def signed_modulo_int_def extra_operands_def
      show_int_def upt_rec)

lemma iterations_two: "iterations (NewQuerySet ''q'' ''Sum(%d)'' [[1, 2]]) = 2"
  by (simp add: NewQuerySet_def zero_QuerySet_def go_len_def wrap64_def)

lemma texts_NewQuerySet:
  "setup_text (NewQuerySet name fmt argsets) = []"
  "teardown_text (NewQuerySet name fmt argsets) = []"
  "Name (NewQuerySet name fmt argsets) = name"
  by (simp_all add: NewQuerySet_def zero_QuerySet_def)

text \<open>
  Claim C5 does not hold of the program: the worker has no check of the number of
  results. A batch of two records whose request is answered, without an error, by one
  result: the worker emits the first record with that result and nothing for the
  second, no error record reaches the collector, and the run returns the normal summary
  with an iteration count of 2 and one line written.
\<close>

theorem short_reply_counterexample:
  "producer Sprintf (NewQuerySet ''q'' ''Sum(%d)'' [[1, 2]]) 2
     = Inr [Send [\<lparr>raw = ''Sum(1)\<newline>'', inputs = [IfaceInt 1], outputs = [IfaceNil], err = None\<rparr>,
                  \<lparr>raw = ''Sum(2)\<newline>'', inputs = [IfaceInt 2], outputs = [IfaceNil], err = None\<rparr>],
            Close]
   \<and> query short_env ''Sum(1)\<newline>Sum(2)\<newline>'' = \<lparr>reply_sums = Inr [7], reply_err = None\<rparr>
   \<and> worker_batch (query short_env)
         [\<lparr>raw = ''Sum(1)\<newline>'', inputs = [IfaceInt 1], outputs = [IfaceNil], err = None\<rparr>,
          \<lparr>raw = ''Sum(2)\<newline>'', inputs = [IfaceInt 2], outputs = [IfaceNil], err = None\<rparr>]
       = [Rec \<lparr>raw = ''Sum(1)\<newline>'', inputs = [IfaceInt 1], outputs = [IfaceInt 7], err = None\<rparr>]
   \<and> RunSumMultiBatch Sprintf short_env (NewQuerySet ''q'' ''Sum(%d)'' [[1, 2]]) 1 2
       = Returned
           \<lparr>summary = \<lparr>ResultName = ''q'', Iterations = 2, Concurrency = 1, BatchSize = 2,
                         Seconds = 0, ColumnCount = 6000000, Timestamp = 1500000000\<rparr>,
            printed = [LogWrote], written = [(IfaceInt 7, [IfaceInt 1])]\<rparr>"
  by (simp add: producer_two RunSumMultiBatch_def short_env_def worker_batch_def batch_text_def
      optional_query_def texts_NewQuerySet iterations_two arrival_def go_index_def
      teardown_and_report_def full_result_def)

lemma collate_short:
  "length totals \<le> length batch \<Longrightarrow>
     collate batch totals = map (\<lambda>(q, s). Rec (q\<lparr>outputs := [IfaceInt s]\<rparr>)) (zip batch totals)"
  by (induction batch totals rule: collate.induct) simp_all

text \<open>
  When the request of a batch of \<open>N\<close> records is answered without an error by \<open>k \<le> N\<close>
  results, the worker emits the first \<open>k\<close> records of the batch, in order, the \<open>i\<close>-th
  carrying the \<open>i\<close>-th result as its output, and nothing else.
\<close>

lemma worker_batch_short:
  assumes "reply_err (ask (batch_text batch)) = None"
      and "reply_sums (ask (batch_text batch)) = Inr totals"
      and "length totals \<le> length batch"
  shows "worker_batch ask batch
           = map (\<lambda>(q, s). Rec (q\<lparr>outputs := [IfaceInt s]\<rparr>)) (zip batch totals)
       \<and> length (worker_batch ask batch) = length totals
       \<and> (\<forall>i<length totals.
             worker_batch ask batch ! i = Rec ((batch ! i)\<lparr>outputs := [IfaceInt (totals ! i)]\<rparr>))
       \<and> (\<forall>p. WorkerPanic p \<notin> set (worker_batch ask batch))
       \<and> (\<forall>q. Rec q \<in> set (worker_batch ask batch) \<longrightarrow>
             (\<exists>i<length totals. q = (batch ! i)\<lparr>outputs := [IfaceInt (totals ! i)]\<rparr>))"
proof -
  have w: "worker_batch ask batch
             = map (\<lambda>(q, s). Rec (q\<lparr>outputs := [IfaceInt s]\<rparr>)) (zip batch totals)"
    using assms by (simp add: worker_batch_def collate_short)
  have l: "length (zip batch totals) = length totals"
    using assms(3) by simp
  have n: "\<forall>i<length totals.
             worker_batch ask batch ! i = Rec ((batch ! i)\<lparr>outputs := [IfaceInt (totals ! i)]\<rparr>)"
    using l by (simp add: w)
  have p: "\<forall>p. WorkerPanic p \<notin> set (worker_batch ask batch)"
    by (auto simp add: w)
  have r: "\<forall>q. Rec q \<in> set (worker_batch ask batch) \<longrightarrow>
             (\<exists>i<length totals. q = (batch ! i)\<lparr>outputs := [IfaceInt (totals ! i)]\<rparr>)"
  proof (intro allI impI)
    fix q
    assume "Rec q \<in> set (worker_batch ask batch)"
    then obtain i where "i < length (worker_batch ask batch)" "worker_batch ask batch ! i = Rec q"
      by (auto simp add: in_set_conv_nth)
    then show "\<exists>i<length totals. q = (batch ! i)\<lparr>outputs := [IfaceInt (totals ! i)]\<rparr>"
      using n l by (auto simp add: w)
  qed
  show ?thesis
    using w l n p r by simp
qed

subsection \<open>The worker on a failed request\<close>


subsection \<open>A run whose teardown fails\<close>

lemma concat_filter_nonempty: "concat (filter (\<lambda>xs. xs \<noteq> []) xss) = concat xss"
  by (induction xss) simp_all

lemma mset_concat_update_tl:
  assumes "k < length l" and "l ! k \<noteq> []"
  shows "add_mset (hd (l ! k)) (mset (concat (l[k := tl (l ! k)]))) = mset (concat l)"
proof -
  have l: "l = take k l @ (l ! k) # drop (Suc k) l"
    using assms(1) by (rule id_take_nth_drop)
  have u: "l[k := tl (l ! k)] = take k l @ tl (l ! k) # drop (Suc k) l"
    using assms(1) by (rule upd_conv_take_nth_drop)
  have h: "add_mset (hd (l ! k)) (mset (tl (l ! k))) = mset (l ! k)"
    using assms(2) by (cases "l ! k") simp_all
  have "mset (concat l) = mset (concat (take k l)) + mset (l ! k) + mset (concat (drop (Suc k) l))"
    by (subst l) simp
  moreover have "mset (concat (l[k := tl (l ! k)]))
      = mset (concat (take k l)) + mset (tl (l ! k)) + mset (concat (drop (Suc k) l))"
    by (simp add: u)
  ultimately show ?thesis
    using h by (metis union_mset_add_mset_left union_mset_add_mset_right)
qed

lemma mset_interleave: "mset (interleave cs xss) = mset (concat xss)"
proof (induction cs arbitrary: xss)
  case Nil
  show ?case by simp
next
  case (Cons c cs)
  show ?case
  proof (cases "filter (\<lambda>xs. xs \<noteq> []) xss")
    case Nil
    then have "concat (filter (\<lambda>xs. xs \<noteq> []) xss) = []" by simp
    then have "concat xss = []" by (simp only: concat_filter_nonempty)
    then show ?thesis using Nil by simp
  next
    case (Cons ys yss)
    define l where "l = ys # yss"
    define k where "k = c mod length l"
    have k: "k < length l" by (simp add: k_def l_def)
    have "l ! k \<in> set l" using k by (rule nth_mem)
    then have "l ! k \<in> set (filter (\<lambda>xs. xs \<noteq> []) xss)"
      by (simp only: l_def Cons)
    then have ne: "l ! k \<noteq> []" by simp
    have "interleave (c # cs) xss = hd (l ! k) # interleave cs (l[k := tl (l ! k)])"
      using Cons by (simp add: l_def k_def)
    then have "mset (interleave (c # cs) xss)
        = add_mset (hd (l ! k)) (mset (concat (l[k := tl (l ! k)])))"
      by (simp add: Cons.IH)
    also have "\<dots> = mset (concat l)" by (rule mset_concat_update_tl [OF k ne])
    also have "\<dots> = mset (concat xss)"
      using Cons concat_filter_nonempty [of xss] by (simp add: l_def)
    finally show ?thesis .
  qed
qed

lemma collect_good:
  assumes "\<forall>ev\<in>set evs. \<exists>q v. ev = Rec q \<and> err q = None \<and> outputs q = [v]"
      and "\<forall>k. werr k = None"
  shows "\<exists>new. collect werr evs lines = Drained (lines @ new) \<and> length new = length evs
           \<and> map snd new = map (\<lambda>ev. case ev of Rec q \<Rightarrow> inputs q | WorkerPanic p \<Rightarrow> []) evs"
  using assms(1)
proof (induction evs arbitrary: lines)
  case Nil
  show ?case by simp
next
  case (Cons ev evs)
  from Cons.prems obtain q v where q: "ev = Rec q" "err q = None" "outputs q = [v]"
    by auto
  from Cons.prems have "\<forall>ev\<in>set evs. \<exists>q v. ev = Rec q \<and> err q = None \<and> outputs q = [v]"
    by simp
  from Cons.IH [OF this, of "lines @ [(v, inputs q)]"]
  obtain new where new: "collect werr evs (lines @ [(v, inputs q)]) = Drained ((lines @ [(v, inputs q)]) @ new)"
      "length new = length evs"
      "map snd new = map (\<lambda>ev. case ev of Rec q \<Rightarrow> inputs q | WorkerPanic p \<Rightarrow> []) evs"
    by blast
  have "collect werr (ev # evs) lines = Drained (lines @ ((v, inputs q) # new))"
    using q new(1) assms(2) by (simp add: go_index_def)
  then show ?case
    using new(2,3) q(1) by (intro exI [of _ "(v, inputs q) # new"]) simp
qed

lemma worker_batch_good:
  assumes "reply_err (ask (batch_text batch)) = None"
      and "reply_sums (ask (batch_text batch)) = Inr totals"
      and "length totals = length batch"
  shows "worker_batch ask batch = map (\<lambda>(q, s). Rec (q\<lparr>outputs := [IfaceInt s]\<rparr>)) (zip batch totals)"
    and "length (worker_batch ask batch) = length batch"
    and "map (\<lambda>ev. case ev of Rec q \<Rightarrow> inputs q | WorkerPanic p \<Rightarrow> []) (worker_batch ask batch)
           = map inputs batch"
proof -
  show w: "worker_batch ask batch
             = map (\<lambda>(q, s). Rec (q\<lparr>outputs := [IfaceInt s]\<rparr>)) (zip batch totals)"
    using assms by (simp add: worker_batch_def collate_short)
  show "length (worker_batch ask batch) = length batch"
    using assms(3) by (simp add: w)
  have "map (\<lambda>ev. case ev of Rec q \<Rightarrow> inputs q | WorkerPanic p \<Rightarrow> [])
          (map (\<lambda>(q, s). Rec (q\<lparr>outputs := [IfaceInt s]\<rparr>)) (zip batch totals))
        = map (inputs \<circ> fst) (zip batch totals)"
    by (simp add: case_prod_unfold)
  also have "\<dots> = map inputs (map fst (zip batch totals))" by simp
  also have "\<dots> = map inputs batch" using assms(3) by simp
  finally show "map (\<lambda>ev. case ev of Rec q \<Rightarrow> inputs q | WorkerPanic p \<Rightarrow> []) (worker_batch ask batch)
           = map inputs batch"
    by (simp only: w)
qed

lemma err_record_at: "err (record_at sprintf qs n) = None"
  by (simp add: record_at_def Let_def)

lemma collect_all_good:
  assumes wf: "wf_QuerySet qs" and b: "1 \<le> batchSize" and c: "1 \<le> concurrency"
      and ops: "producer sprintf qs batchSize = Inr ops"
      and good: "\<forall>batch\<in>set (sent ops).
                   reply_err (query e (batch_text batch)) = None
                 \<and> (\<exists>totals. reply_sums (query e (batch_text batch)) = Inr totals
                             \<and> length totals = length batch)"
      and wr: "\<forall>k. write_err e k = None"
  shows "\<exists>lines. collect (write_err e) (arrival e ops concurrency) [] = Drained lines
           \<and> length lines = nat (iterations qs)
           \<and> mset (map snd lines)
               = mset (map (\<lambda>n. inputs (record_at sprintf qs n)) (loop_range (iterations qs)))"
proof -
  define records where "records = map (record_at sprintf qs) (loop_range (iterations qs))"
  define batches where "batches = chunks (nat batchSize) records"
  define g where "g = (\<lambda>ev. case ev of Rec q \<Rightarrow> inputs q | WorkerPanic p \<Rightarrow> [])"
  define evss where "evss = map (worker_batch (query e)) batches"
  have nb: "0 < nat batchSize" using b by simp
  have "ops = map Send batches @ [Close]"
    using ops producer_wf [OF wf b, of sprintf] by (simp add: batches_def records_def)
  then have sent: "sent ops = batches" by (simp add: sent_map_Send)
  have cat: "concat batches = records"
    unfolding batches_def by (rule concat_chunks [OF nb])
  have arr: "arrival e ops concurrency = interleave (choices e) evss"
    using c by (simp add: arrival_def sent evss_def)
  have ms: "mset (arrival e ops concurrency) = mset (concat evss)"
    by (simp only: arr mset_interleave)
  have errs: "err q = None" if "q \<in> set records" for q
    using that by (auto simp add: records_def err_record_at)
  have ev_good: "\<exists>q v. ev = Rec q \<and> err q = None \<and> outputs q = [v]"
    if "ev \<in> set (concat evss)" for ev
  proof -
    from that obtain batch where batch: "batch \<in> set batches" "ev \<in> set (worker_batch (query e) batch)"
      by (auto simp add: evss_def)
    from good batch(1) sent obtain totals where t:
      "reply_err (query e (batch_text batch)) = None"
      "reply_sums (query e (batch_text batch)) = Inr totals" "length totals = length batch"
      by blast
    from batch(2) worker_batch_good(1) [of "query e" batch totals, OF t]
    obtain q s where qs: "(q, s) \<in> set (zip batch totals)" "ev = Rec (q\<lparr>outputs := [IfaceInt s]\<rparr>)"
      by auto
    from qs(1) have "q \<in> set batch" by (rule set_zip_leftD)
    then have "q \<in> set (concat batches)" using batch(1) by auto
    then have "err q = None" using errs by (simp only: cat)
    then show ?thesis using qs(2) by simp
  qed
  have "set (arrival e ops concurrency) = set (concat evss)"
    using ms by (rule mset_eq_setD)
  then have "\<forall>ev\<in>set (arrival e ops concurrency). \<exists>q v. ev = Rec q \<and> err q = None \<and> outputs q = [v]"
    using ev_good by blast
  from collect_good [OF this wr, of "[]"]
  obtain lines where lines:
    "collect (write_err e) (arrival e ops concurrency) [] = Drained lines"
    "map snd lines = map g (arrival e ops concurrency)"
    by (auto simp add: g_def)
  have each: "map g (worker_batch (query e) batch) = map inputs batch"
    if "batch \<in> set batches" for batch
  proof -
    from good that sent obtain totals where t:
      "reply_err (query e (batch_text batch)) = None"
      "reply_sums (query e (batch_text batch)) = Inr totals" "length totals = length batch"
      by blast
    show ?thesis unfolding g_def by (rule worker_batch_good(3) [of "query e" batch totals, OF t])
  qed
  have "mset (map snd lines) = image_mset g (mset (arrival e ops concurrency))"
    by (simp only: lines(2) mset_map)
  also have "\<dots> = mset (map g (concat evss))" by (simp only: ms mset_map)
  also have "map g (concat evss) = concat (map (map g) evss)" by (rule map_concat)
  also have "map (map g) evss = map (map inputs) batches"
    using each by (simp add: evss_def)
  also have "concat (map (map inputs) batches) = map inputs (concat batches)"
    by (rule map_concat [symmetric])
  finally have m: "mset (map snd lines) = mset (map inputs records)"
    by (simp only: cat)
  have r: "map inputs records
             = map (\<lambda>n. inputs (record_at sprintf qs n)) (loop_range (iterations qs))"
    by (simp add: records_def)
  have "length lines = size (mset (map snd lines))" by simp
  also have "\<dots> = length records" by (simp only: m size_mset length_map)
  also have "\<dots> = nat (iterations qs)" by (simp add: records_def loop_range_def)
  finally have l: "length lines = nat (iterations qs)" .
  show ?thesis
    using lines(1) l m r by (intro exI [of _ lines]) simp
qed

lemma producer_two_register:
  "producer Sprintf (NewRegisterQuerySet ''q'' ''Sum(%d)'' ''Make()'' ''Drop()'' [[1, 2]]) 2
     = Inr [Send [\<lparr>raw = ''Sum(1)\<newline>'', inputs = [IfaceInt 1], outputs = [IfaceNil], err = None\<rparr>,
                  \<lparr>raw = ''Sum(2)\<newline>'', inputs = [IfaceInt 2], outputs = [IfaceNil], err = None\<rparr>],
            Close]"
  by (simp add: producer_def NewRegisterQuerySet_def NewQuerySet_def zero_QuerySet_def go_len_def
      wrap64_def QueryResultN_def render_args_def UnravelIndex_def go_quot_def go_rem_def
      go_index_def loop_range_def signed_divide_int_def signed_modulo_int_def
      extra_operands_def show_int_def upt_rec)

lemma fields_two_register:
  "setup_text (NewRegisterQuerySet ''q'' ''Sum(%d)'' ''Make()'' ''Drop()'' [[1, 2]]) = ''Make()''"
  "teardown_text (NewRegisterQuerySet ''q'' ''Sum(%d)'' ''Make()'' ''Drop()'' [[1, 2]]) = ''Drop()''"
  "Name (NewRegisterQuerySet ''q'' ''Sum(%d)'' ''Make()'' ''Drop()'' [[1, 2]]) = ''q''"
  "iterations (NewRegisterQuerySet ''q'' ''Sum(%d)'' ''Make()'' ''Drop()'' [[1, 2]]) = 2"
  by (simp_all add: NewRegisterQuerySet_def NewQuerySet_def zero_QuerySet_def go_len_def wrap64_def)

text \<open>
  Claim C7 does not hold of the program: the teardown's error branch returns the same
  value as every other error branch. A QuerySet of two iterations with a teardown
  query, batch size 2 and one worker: the batch is answered with its two results, both
  lines are written, the teardown query fails, and the returned summary has an
  iteration count, a concurrency and a batch size of 0 and \<open>-1\<close> for the elapsed seconds.
\<close>

theorem teardown_failure_counterexample:
  "iterations (NewRegisterQuerySet ''q'' ''Sum(%d)'' ''Make()'' ''Drop()'' [[1, 2]]) = 2
   \<and> RunSumMultiBatch Sprintf teardown_env
         (NewRegisterQuerySet ''q'' ''Sum(%d)'' ''Make()'' ''Drop()'' [[1, 2]]) 1 2
       = Returned
           \<lparr>summary = \<lparr>ResultName = ''q'', Iterations = 0, Concurrency = 0, BatchSize = 0,
                         Seconds = - 1, ColumnCount = 0, Timestamp = 1500000000\<rparr>,
            printed = [LogTeardown ''teardown refused''],
            written = [(IfaceInt 7, [IfaceInt 1]), (IfaceInt 8, [IfaceInt 2])]\<rparr>"
  by (simp add: producer_two_register fields_two_register RunSumMultiBatch_def teardown_env_def
      worker_batch_def batch_text_def optional_query_def arrival_def go_index_def
      teardown_and_report_def failed_result_def)

text \<open>
  Claim C7, amended. In a run whose batches all complete successfully (the results
  directory and file are created, the setup query does not fail, every batch's request
  is answered without an error by one result per record, every write succeeds) and
  whose teardown query fails, the failure is surfaced: the call prints the teardown
  error and returns the value of the error branches, with the QuerySet's name, an
  iteration count, a concurrency and a batch size of 0 and \<open>-1\<close> for the elapsed
  seconds. The result lines already written stay in the results file, one for each
  iteration, carrying the input tuples of all the records, in whatever order the
  records arrived.
\<close>

theorem teardown_failure_returns_sentinel:
  assumes "wf_QuerySet qs" and "1 \<le> batchSize" and "1 \<le> concurrency"
      and "mkdir_err e = None" and "create_err e = None"
      and "optional_query e (setup_text qs) = None"
      and "producer sprintf qs batchSize = Inr ops"
      and "\<forall>batch\<in>set (sent ops).
             reply_err (query e (batch_text batch)) = None
           \<and> (\<exists>totals. reply_sums (query e (batch_text batch)) = Inr totals
                       \<and> length totals = length batch)"
      and "\<forall>k. write_err e k = None"
      and "optional_query e (teardown_text qs) = Some er"
  shows "\<exists>lines.
           RunSumMultiBatch sprintf e qs concurrency batchSize
             = Returned \<lparr>summary = \<lparr>ResultName = Name qs, Iterations = 0, Concurrency = 0,
                                      BatchSize = 0, Seconds = - 1, ColumnCount = 0,
                                      Timestamp = now_unix e\<rparr>,
                         printed = [LogTeardown er], written = lines\<rparr>
         \<and> length lines = nat (iterations qs)
         \<and> mset (map snd lines)
             = mset (map (\<lambda>n. inputs (record_at sprintf qs n)) (loop_range (iterations qs)))"
proof -
  from collect_all_good [OF assms(1,2,3,7,8,9)]
  obtain lines where lines:
    "collect (write_err e) (arrival e ops concurrency) [] = Drained lines"
    "length lines = nat (iterations qs)"
    "mset (map snd lines)
       = mset (map (\<lambda>n. inputs (record_at sprintf qs n)) (loop_range (iterations qs)))"
    by blast
  have "RunSumMultiBatch sprintf e qs concurrency batchSize
          = Returned \<lparr>summary = failed_result qs (now_unix e),
                      printed = [LogTeardown er], written = lines\<rparr>"
    using assms(4,5,6,7,10) lines(1)
    by (simp add: RunSumMultiBatch_def teardown_and_report_def)
  then show ?thesis
    using lines(2,3) by (intro exI [of _ lines]) (simp add: failed_result_def)
qed

theorem teardown_failure_returns_sentinel_witness:
  "wf_QuerySet (NewRegisterQuerySet ''q'' ''Sum(%d)'' ''Make()'' ''Drop()'' [[1, 2]])
   \<and> mkdir_err teardown_env = None \<and> create_err teardown_env = None
   \<and> optional_query teardown_env ''Make()'' = None
   \<and> optional_query teardown_env ''Drop()'' = Some ''teardown refused''
   \<and> query teardown_env ''Sum(1)\<newline>Sum(2)\<newline>'' = \<lparr>reply_sums = Inr [7, 8], reply_err = None\<rparr>
   \<and> (\<exists>lines.
        RunSumMultiBatch Sprintf teardown_env
          (NewRegisterQuerySet ''q'' ''Sum(%d)'' ''Make()'' ''Drop()'' [[1, 2]]) 1 2
          = Returned \<lparr>summary = \<lparr>ResultName = ''q'', Iterations = 0, Concurrency = 0,
                                   BatchSize = 0, Seconds = - 1, ColumnCount = 0,
                                   Timestamp = 1500000000\<rparr>,
                      printed = [LogTeardown ''teardown refused''], written = lines\<rparr>
      \<and> length lines = 2)"
proof -
  let ?Q = "NewRegisterQuerySet ''q'' ''Sum(%d)'' ''Make()'' ''Drop()'' [[1, 2]]"
  let ?ops = "[Send [\<lparr>raw = ''Sum(1)\<newline>'', inputs = [IfaceInt 1], outputs = [IfaceNil], err = None\<rparr>,
                     \<lparr>raw = ''Sum(2)\<newline>'', inputs = [IfaceInt 2], outputs = [IfaceNil], err = None\<rparr>],
               Close]"
  have g: "grids_ok [[1, 2]]"
    by (simp add: grids_ok_def go_len_def max_int64_def)
  have h1: "wf_QuerySet ?Q" by (rule wf_NewRegisterQuerySet [OF g])
  have h2: "(1 :: int) \<le> 2" and h3: "(1 :: int) \<le> 1" by simp_all
  have h4: "mkdir_err teardown_env = None" and h5: "create_err teardown_env = None"
    by (simp_all add: teardown_env_def)
  have h6: "optional_query teardown_env (setup_text ?Q) = None"
    by (simp add: fields_two_register optional_query_def teardown_env_def)
  have h7: "producer Sprintf ?Q 2 = Inr ?ops" by (rule producer_two_register)
  have h8: "\<forall>batch\<in>set (sent ?ops).
             reply_err (query teardown_env (batch_text batch)) = None
           \<and> (\<exists>totals. reply_sums (query teardown_env (batch_text batch)) = Inr totals
                       \<and> length totals = length batch)"
    by (simp add: teardown_env_def batch_text_def)
  have h9: "\<forall>k. write_err teardown_env k = None" by (simp add: teardown_env_def)
  have h10: "optional_query teardown_env (teardown_text ?Q) = Some ''teardown refused''"
    by (simp add: fields_two_register optional_query_def teardown_env_def)
  from teardown_failure_returns_sentinel [OF h1 h2 h3 h4 h5 h6 h7 h8 h9 h10]
  obtain lines where
    "RunSumMultiBatch Sprintf teardown_env ?Q 1 2
       = Returned \<lparr>summary = \<lparr>ResultName = Name ?Q, Iterations = 0, Concurrency = 0,
                                BatchSize = 0, Seconds = - 1, ColumnCount = 0,
                                Timestamp = now_unix teardown_env\<rparr>,
                   printed = [LogTeardown ''teardown refused''], written = lines\<rparr>"
    "length lines = nat (iterations ?Q)"
    by blast
  then have "\<exists>lines.
        RunSumMultiBatch Sprintf teardown_env ?Q 1 2
          = Returned \<lparr>summary = \<lparr>ResultName = ''q'', Iterations = 0, Concurrency = 0,
                                   BatchSize = 0, Seconds = - 1, ColumnCount = 0,
                                   Timestamp = 1500000000\<rparr>,
                      printed = [LogTeardown ''teardown refused''], written = lines\<rparr>
      \<and> length lines = 2"
    by (intro exI [of _ lines]) (simp add: fields_two_register teardown_env_def)
  moreover have "optional_query teardown_env ''Make()'' = None"
    "optional_query teardown_env ''Drop()'' = Some ''teardown refused''"
    "query teardown_env ''Sum(1)\<newline>Sum(2)\<newline>'' = \<lparr>reply_sums = Inr [7, 8], reply_err = None\<rparr>"
    by (simp_all add: optional_query_def teardown_env_def)
  ultimately show ?thesis
    using h1 h4 h5 by simp
qed

subsection \<open>A run whose replies are short\<close>

lemma collect_all_short:
  assumes wf: "wf_QuerySet qs" and b: "1 \<le> batchSize" and c: "1 \<le> concurrency"
      and ops: "producer sprintf qs batchSize = Inr ops"
      and good: "\<forall>batch\<in>set (sent ops).
                   reply_err (query e (batch_text batch)) = None
                 \<and> (\<exists>totals. reply_sums (query e (batch_text batch)) = Inr totals
                             \<and> length totals \<le> length batch)"
      and wr: "\<forall>k. write_err e k = None"
  shows "\<exists>lines. collect (write_err e) (arrival e ops concurrency) [] = Drained lines
           \<and> length lines
               = sum_list (map (\<lambda>batch. length (worker_batch (query e) batch)) (sent ops))"
proof -
  define records where "records = map (record_at sprintf qs) (loop_range (iterations qs))"
  define batches where "batches = chunks (nat batchSize) records"
  define evss where "evss = map (worker_batch (query e)) batches"
  have nb: "0 < nat batchSize" using b by simp
  have "ops = map Send batches @ [Close]"
    using ops producer_wf [OF wf b, of sprintf] by (simp add: batches_def records_def)
  then have sent: "sent ops = batches" by (simp add: sent_map_Send)
  have cat: "concat batches = records"
    unfolding batches_def by (rule concat_chunks [OF nb])
  have arr: "arrival e ops concurrency = interleave (choices e) evss"
    using c by (simp add: arrival_def sent evss_def)
  have ms: "mset (arrival e ops concurrency) = mset (concat evss)"
    by (simp only: arr mset_interleave)
  have errs: "err q = None" if "q \<in> set records" for q
    using that by (auto simp add: records_def err_record_at)
  have ev_good: "\<exists>q v. ev = Rec q \<and> err q = None \<and> outputs q = [v]"
    if "ev \<in> set (concat evss)" for ev
  proof -
    from that obtain batch where batch: "batch \<in> set batches" "ev \<in> set (worker_batch (query e) batch)"
      by (auto simp add: evss_def)
    from good batch(1) sent obtain totals where t:
      "reply_err (query e (batch_text batch)) = None"
      "reply_sums (query e (batch_text batch)) = Inr totals" "length totals \<le> length batch"
      by blast
    have "worker_batch (query e) batch
            = map (\<lambda>(q, s). Rec (q\<lparr>outputs := [IfaceInt s]\<rparr>)) (zip batch totals)"
      using t by (simp add: worker_batch_def collate_short)
    with batch(2)
    obtain q s where qs: "(q, s) \<in> set (zip batch totals)" "ev = Rec (q\<lparr>outputs := [IfaceInt s]\<rparr>)"
      by auto
    from qs(1) have "q \<in> set batch" by (rule set_zip_leftD)
    then have "q \<in> set (concat batches)" using batch(1) by auto
    then have "err q = None" using errs by (simp only: cat)
    then show ?thesis using qs(2) by simp
  qed
  have "set (arrival e ops concurrency) = set (concat evss)"
    using ms by (rule mset_eq_setD)
  then have "\<forall>ev\<in>set (arrival e ops concurrency). \<exists>q v. ev = Rec q \<and> err q = None \<and> outputs q = [v]"
    using ev_good by blast
  from collect_good [OF this wr, of "[]"]
  obtain lines where lines:
    "collect (write_err e) (arrival e ops concurrency) [] = Drained lines"
    "length lines = length (arrival e ops concurrency)"
    by auto
  have "length (arrival e ops concurrency) = size (mset (arrival e ops concurrency))" by simp
  also have "\<dots> = length (concat evss)" by (simp only: ms size_mset)
  also have "\<dots> = sum_list (map length evss)" by (rule length_concat)
  also have "\<dots> = sum_list (map (\<lambda>batch. length (worker_batch (query e) batch)) (sent ops))"
    by (simp add: evss_def sent comp_def)
  finally show ?thesis
    using lines by (intro exI [of _ lines]) simp
qed

text \<open>
  Claim C5, amended. In a run in which the request of every batch is answered without an
  error by at most as many results as the batch has records (the results directory and
  file are created, the setup and teardown queries do not fail, every write succeeds),
  the worker emits, for a batch of \<open>N\<close> records answered by \<open>k \<le> N\<close> results, exactly
  the first \<open>k\<close> records of the batch, in order, the \<open>i\<close>-th carrying the \<open>i\<close>-th result as
  its output: no record is emitted without its own matching result, and the last
  \<open>N - k\<close> records are not reported. No count is checked and the run does not fail: it
  returns the normal summary, with the QuerySet's full iteration count, and the results
  file has one line for each result returned.
\<close>

theorem short_reply_not_detected:
  assumes "wf_QuerySet qs" and "1 \<le> batchSize" and "1 \<le> concurrency"
      and "mkdir_err e = None" and "create_err e = None"
      and "optional_query e (setup_text qs) = None"
      and "producer sprintf qs batchSize = Inr ops"
      and "\<forall>batch\<in>set (sent ops).
             reply_err (query e (batch_text batch)) = None
           \<and> (\<exists>totals. reply_sums (query e (batch_text batch)) = Inr totals
                       \<and> length totals \<le> length batch)"
      and "\<forall>k. write_err e k = None"
      and "optional_query e (teardown_text qs) = None"
  shows "(\<forall>batch\<in>set (sent ops). \<forall>totals.
            reply_sums (query e (batch_text batch)) = Inr totals \<longrightarrow>
              worker_batch (query e) batch
                = map (\<lambda>(q, s). Rec (q\<lparr>outputs := [IfaceInt s]\<rparr>)) (zip batch totals)
            \<and> length (worker_batch (query e) batch) = length totals
            \<and> (\<forall>i<length totals.
                  worker_batch (query e) batch ! i
                    = Rec ((batch ! i)\<lparr>outputs := [IfaceInt (totals ! i)]\<rparr>)))
       \<and> (\<exists>lines.
            RunSumMultiBatch sprintf e qs concurrency batchSize
              = Returned \<lparr>summary = \<lparr>ResultName = Name qs, Iterations = iterations qs,
                                       Concurrency = concurrency, BatchSize = batchSize,
                                       Seconds = elapsed e, ColumnCount = NumLineOrders e,
                                       Timestamp = now_unix e\<rparr>,
                          printed = [LogWrote], written = lines\<rparr>
          \<and> length lines
              = sum_list (map (\<lambda>batch. length (worker_batch (query e) batch)) (sent ops)))"
proof -
  have w: "worker_batch (query e) batch
                = map (\<lambda>(q, s). Rec (q\<lparr>outputs := [IfaceInt s]\<rparr>)) (zip batch totals)
            \<and> length (worker_batch (query e) batch) = length totals
            \<and> (\<forall>i<length totals.
                  worker_batch (query e) batch ! i
                    = Rec ((batch ! i)\<lparr>outputs := [IfaceInt (totals ! i)]\<rparr>))"
    if "batch \<in> set (sent ops)" "reply_sums (query e (batch_text batch)) = Inr totals"
    for batch totals
  proof -
    from assms(8) that have e: "reply_err (query e (batch_text batch)) = None"
      and l: "length totals \<le> length batch"
      by auto
    from worker_batch_short [of "query e" batch totals, OF e that(2) l]
    show ?thesis by blast
  qed
  from collect_all_short [OF assms(1,2,3,7,8,9)]
  obtain lines where lines:
    "collect (write_err e) (arrival e ops concurrency) [] = Drained lines"
    "length lines = sum_list (map (\<lambda>batch. length (worker_batch (query e) batch)) (sent ops))"
    by blast
  have "RunSumMultiBatch sprintf e qs concurrency batchSize
          = Returned \<lparr>summary = full_result e qs concurrency batchSize,
                      printed = [LogWrote], written = lines\<rparr>"
    using assms(4,5,6,7,10) lines(1)
    by (simp add: RunSumMultiBatch_def teardown_and_report_def)
  then have r: "\<exists>lines.
            RunSumMultiBatch sprintf e qs concurrency batchSize
              = Returned \<lparr>summary = \<lparr>ResultName = Name qs, Iterations = iterations qs,
                                       Concurrency = concurrency, BatchSize = batchSize,
                                       Seconds = elapsed e, ColumnCount = NumLineOrders e,
                                       Timestamp = now_unix e\<rparr>,
                          printed = [LogWrote], written = lines\<rparr>
          \<and> length lines
              = sum_list (map (\<lambda>batch. length (worker_batch (query e) batch)) (sent ops))"
    using lines(2) by (intro exI [of _ lines]) (simp add: full_result_def)
  show ?thesis
    using w r by blast
qed

theorem short_reply_not_detected_witness:
  "wf_QuerySet (NewQuerySet ''q'' ''Sum(%d)'' [[1, 2]])
   \<and> mkdir_err short_env = None \<and> create_err short_env = None
   \<and> query short_env ''Sum(1)\<newline>Sum(2)\<newline>'' = \<lparr>reply_sums = Inr [7], reply_err = None\<rparr>
   \<and> (\<exists>lines.
        RunSumMultiBatch Sprintf short_env (NewQuerySet ''q'' ''Sum(%d)'' [[1, 2]]) 1 2
          = Returned \<lparr>summary = \<lparr>ResultName = ''q'', Iterations = 2, Concurrency = 1,
                                   BatchSize = 2, Seconds = 0, ColumnCount = 6000000,
                                   Timestamp = 1500000000\<rparr>,
                      printed = [LogWrote], written = lines\<rparr>
      \<and> length lines = 1)"
proof -
  let ?Q = "NewQuerySet ''q'' ''Sum(%d)'' [[1, 2]]"
  let ?ops = "[Send [\<lparr>raw = ''Sum(1)\<newline>'', inputs = [IfaceInt 1], outputs = [IfaceNil], err = None\<rparr>,
                     \<lparr>raw = ''Sum(2)\<newline>'', inputs = [IfaceInt 2], outputs = [IfaceNil], err = None\<rparr>],
               Close]"
  have g: "grids_ok [[1, 2]]"
    by (simp add: grids_ok_def go_len_def max_int64_def)
  have h1: "wf_QuerySet ?Q" by (rule wf_NewQuerySet [OF g])
  have h2: "(1 :: int) \<le> 2" and h3: "(1 :: int) \<le> 1" by simp_all
  have h4: "mkdir_err short_env = None" and h5: "create_err short_env = None"
    by (simp_all add: short_env_def)
  have h6: "optional_query short_env (setup_text ?Q) = None"
    by (simp add: texts_NewQuerySet optional_query_def)
  have h7: "producer Sprintf ?Q 2 = Inr ?ops" by (rule producer_two)
  have h8: "\<forall>batch\<in>set (sent ?ops).
             reply_err (query short_env (batch_text batch)) = None
           \<and> (\<exists>totals. reply_sums (query short_env (batch_text batch)) = Inr totals
                       \<and> length totals \<le> length batch)"
    by (simp add: short_env_def batch_text_def)
  have h9: "\<forall>k. write_err short_env k = None" by (simp add: short_env_def)
  have h10: "optional_query short_env (teardown_text ?Q) = None"
    by (simp add: texts_NewQuerySet optional_query_def)
  from short_reply_not_detected [OF h1 h2 h3 h4 h5 h6 h7 h8 h9 h10]
  obtain lines where
    "RunSumMultiBatch Sprintf short_env ?Q 1 2
       = Returned \<lparr>summary = \<lparr>ResultName = Name ?Q, Iterations = iterations ?Q,
                                Concurrency = 1, BatchSize = 2,
                                Seconds = elapsed short_env,
                                ColumnCount = NumLineOrders short_env,
                                Timestamp = now_unix short_env\<rparr>,
                   printed = [LogWrote], written = lines\<rparr>"
    "length lines
       = sum_list (map (\<lambda>batch. length (worker_batch (query short_env) batch)) (sent ?ops))"
    by blast
  then have "\<exists>lines.
        RunSumMultiBatch Sprintf short_env ?Q 1 2
          = Returned \<lparr>summary = \<lparr>ResultName = ''q'', Iterations = 2, Concurrency = 1,
                                   BatchSize = 2, Seconds = 0, ColumnCount = 6000000,
                                   Timestamp = 1500000000\<rparr>,
                      printed = [LogWrote], written = lines\<rparr>
      \<and> length lines = 1"
    by (intro exI [of _ lines])
       (simp add: texts_NewQuerySet iterations_two short_env_def worker_batch_def batch_text_def)
  moreover have "query short_env ''Sum(1)\<newline>Sum(2)\<newline>'' = \<lparr>reply_sums = Inr [7], reply_err = None\<rparr>"
    by (simp add: short_env_def)
  ultimately show ?thesis
    using h1 h4 h5 by simp
qed

section \<open>The catalogue and the pipeline on an unknown name\<close>



lemma interleave_Nil [simp]: "interleave cs [] = []"
  by (cases cs) simp_all




section \<open>The grid sweep\<close>

lemma grid_inner_Inr:
  "grid_inner run c bs acc = Inr rs
     \<longleftrightarrow> (\<exists>new. rs = acc @ new \<and> map Returned new = map (run c) bs)"
proof (induction bs arbitrary: acc)
  case Nil
  show ?case by auto
next
  case (Cons b bs)
  show ?case
  proof (cases "run c b")
    case (Crashed p)
    then show ?thesis by auto
  next
    case (Returned r)
    have "(\<exists>new. rs = (acc @ [r]) @ new \<and> map Returned new = map (run c) bs)
        \<longleftrightarrow> (\<exists>new. rs = acc @ new \<and> map Returned new = map (run c) (b # bs))"
    proof
      assume "\<exists>new. rs = (acc @ [r]) @ new \<and> map Returned new = map (run c) bs"
      then obtain new where "rs = (acc @ [r]) @ new" "map Returned new = map (run c) bs"
        by blast
      then have "rs = acc @ (r # new) \<and> map Returned (r # new) = map (run c) (b # bs)"
        using Returned by simp
      then show "\<exists>new. rs = acc @ new \<and> map Returned new = map (run c) (b # bs)"
        by blast
    next
      assume "\<exists>new. rs = acc @ new \<and> map Returned new = map (run c) (b # bs)"
      then obtain new where n: "rs = acc @ new" "map Returned new = map (run c) (b # bs)"
        by blast
      then obtain r' new' where "new = r' # new'" by (cases new) auto
      then have "rs = (acc @ [r]) @ new' \<and> map Returned new' = map (run c) bs"
        using n Returned by simp
      then show "\<exists>new. rs = (acc @ [r]) @ new \<and> map Returned new = map (run c) bs"
        by blast
    qed
    then show ?thesis
      using Returned Cons.IH [of "acc @ [r]"] by simp
  qed
qed

lemma grid_outer_Inr:
  "grid_outer run cs bs acc = Inr rs
     \<longleftrightarrow> (\<exists>new. rs = acc @ new
               \<and> map Returned new = map (\<lambda>(c, b). run c b) (List.product cs bs))"
proof (induction cs arbitrary: acc)
  case Nil
  show ?case by auto
next
  case (Cons c cs)
  show ?case
  proof (cases "grid_inner run c bs acc")
    case (Inl p)
    have "\<not> (\<exists>new. rs = acc @ new
               \<and> map Returned new = map (\<lambda>(c, b). run c b) (List.product (c # cs) bs))"
    proof
      assume "\<exists>new. rs = acc @ new
               \<and> map Returned new = map (\<lambda>(c, b). run c b) (List.product (c # cs) bs)"
      then obtain new where n: "rs = acc @ new"
        "map Returned new = map (run c) bs @ map (\<lambda>(c, b). run c b) (List.product cs bs)"
        by (auto simp add: comp_def)
      from n(2) have "map Returned (take (length bs) new) = map (run c) bs"
        by (metis append_eq_conv_conj length_map take_map)
      then have "grid_inner run c bs acc = Inr (acc @ take (length bs) new)"
        by (simp add: grid_inner_Inr)
      then show False using Inl by simp
    qed
    then show ?thesis using Inl by simp
  next
    case (Inr mid)
    then obtain m where m: "mid = acc @ m" "map Returned m = map (run c) bs"
      by (auto simp add: grid_inner_Inr)
    have "(\<exists>new. rs = mid @ new
               \<and> map Returned new = map (\<lambda>(c, b). run c b) (List.product cs bs))
      \<longleftrightarrow> (\<exists>new. rs = acc @ new
               \<and> map Returned new = map (\<lambda>(c, b). run c b) (List.product (c # cs) bs))"
    proof
      assume "\<exists>new. rs = mid @ new
               \<and> map Returned new = map (\<lambda>(c, b). run c b) (List.product cs bs)"
      then obtain new where "rs = mid @ new"
        "map Returned new = map (\<lambda>(c, b). run c b) (List.product cs bs)" by blast
      then have "rs = acc @ (m @ new) \<and> map Returned (m @ new)
                   = map (\<lambda>(c, b). run c b) (List.product (c # cs) bs)"
        using m by (simp add: comp_def)
      then show "\<exists>new. rs = acc @ new
               \<and> map Returned new = map (\<lambda>(c, b). run c b) (List.product (c # cs) bs)"
        by blast
    next
      assume "\<exists>new. rs = acc @ new
               \<and> map Returned new = map (\<lambda>(c, b). run c b) (List.product (c # cs) bs)"
      then obtain new where n: "rs = acc @ new"
        "map Returned new = map (run c) bs @ map (\<lambda>(c, b). run c b) (List.product cs bs)"
        by (auto simp add: comp_def)
      from n(2) have t: "map Returned (take (length bs) new) = map (run c) bs"
        and d: "map Returned (drop (length bs) new) = map (\<lambda>(c, b). run c b) (List.product cs bs)"
        by (metis append_eq_conv_conj length_map take_map,
            metis append_eq_conv_conj length_map drop_map)
      from t m(2) have "map Returned (take (length bs) new) = map Returned m" by simp
      then have "take (length bs) new = m" by (simp add: inj_map_eq_map inj_on_def)
      then have "rs = mid @ drop (length bs) new"
        using n(1) m(1) by (metis append.assoc append_take_drop_id)
      then show "\<exists>new. rs = mid @ new
               \<and> map Returned new = map (\<lambda>(c, b). run c b) (List.product cs bs)"
        using d by blast
    qed
    then show ?thesis
      using Inr Cons.IH [of mid] by simp
  qed
qed

lemma RunSumMultiBatch_summary:
  "RunSumMultiBatch sprintf e qs c b = Returned r \<Longrightarrow>
     (if LogWrote \<in> set (printed r) then summary r = full_result e qs c b
      else summary r = failed_result qs (now_unix e))"
  by (auto simp add: RunSumMultiBatch_def teardown_and_report_def
      split: option.splits sum.splits collected.splits)

lemma getQuerySet_1_1: "getQuerySet ''1.1'' = NewQuerySet ''1.1'' template_1_1 [[1993]]"
  by (simp add: getQuerySet_def)

lemma producer_1_1:
  "1 < b \<Longrightarrow>
   producer sprintf (NewQuerySet ''1.1'' template_1_1 [[1993]]) b
     = Inr [Send [\<lparr>raw = sprintf (template_1_1 @ ''\<newline>'') [IfaceInt 1993],
                   inputs = [IfaceInt 1993], outputs = [IfaceNil], err = None\<rparr>],
            Close]"
  by (simp add: producer_def NewQuerySet_def zero_QuerySet_def go_len_def
      wrap64_def QueryResultN_def render_args_def UnravelIndex_def go_quot_def go_rem_def
      go_index_def loop_range_def signed_divide_int_def signed_modulo_int_def upt_rec)

lemma run_1_1:
  assumes "1 < b" and "0 < c"
  shows "RunSumMultiBatch sprintf short_env (NewQuerySet ''1.1'' template_1_1 [[1993]]) c b
     = Returned
         \<lparr>summary = \<lparr>ResultName = ''1.1'', Iterations = 1, Concurrency = c, BatchSize = b,
                       Seconds = 0, ColumnCount = 6000000, Timestamp = 1500000000\<rparr>,
          printed = [LogWrote], written = [(IfaceInt 7, [IfaceInt 1993])]\<rparr>"
proof -
  have i: "iterations (NewQuerySet ''1.1'' template_1_1 [[1993]]) = 1"
    by (simp add: NewQuerySet_def zero_QuerySet_def go_len_def wrap64_def)
  show ?thesis
    using assms(2)
    by (simp add: RunSumMultiBatch_def producer_1_1 [OF assms(1)] short_env_def
        worker_batch_def batch_text_def optional_query_def texts_NewQuerySet i arrival_def
        go_index_def teardown_and_report_def full_result_def)
qed

lemma run_mkdir_fails:
  "RunSumMultiBatch sprintf (short_env\<lparr>mkdir_err := Some er\<rparr>) qs c b
     = Returned \<lparr>summary = failed_result qs 1500000000, printed = [LogResultsDir er],
                 written = []\<rparr>"
  by (simp add: RunSumMultiBatch_def short_env_def)

text \<open>
  Claim C8 does not hold of the program as stated: a run that fails returns the value of
  the error branches, whose concurrency, batch size and iteration count are 0. The sweep
  of the catalogue query \<open>1.1\<close> (one iteration) in which the results directory cannot be
  created for the run with 16 workers and batch size 4: the fifth summary carries
  neither its pair nor the iteration count of the others.
\<close>

theorem grid_sweep_counterexample:
  "map_sum id (map summary) (HandleQuery Sprintf grid_envs 1 1 ''1.1'' ''grid'')
     = Inr [\<lparr>ResultName = ''1.1'', Iterations = 1, Concurrency = 8, BatchSize = 2,
            Seconds = 0, ColumnCount = 6000000, Timestamp = 1500000000\<rparr>,
           \<lparr>ResultName = ''1.1'', Iterations = 1, Concurrency = 8, BatchSize = 4,
            Seconds = 0, ColumnCount = 6000000, Timestamp = 1500000000\<rparr>,
           \<lparr>ResultName = ''1.1'', Iterations = 1, Concurrency = 8, BatchSize = 8,
            Seconds = 0, ColumnCount = 6000000, Timestamp = 1500000000\<rparr>,
           \<lparr>ResultName = ''1.1'', Iterations = 1, Concurrency = 16, BatchSize = 2,
            Seconds = 0, ColumnCount = 6000000, Timestamp = 1500000000\<rparr>,
           \<lparr>ResultName = ''1.1'', Iterations = 0, Concurrency = 0, BatchSize = 0,
            Seconds = - 1, ColumnCount = 0, Timestamp = 1500000000\<rparr>,
           \<lparr>ResultName = ''1.1'', Iterations = 1, Concurrency = 16, BatchSize = 8,
            Seconds = 0, ColumnCount = 6000000, Timestamp = 1500000000\<rparr>,
           \<lparr>ResultName = ''1.1'', Iterations = 1, Concurrency = 32, BatchSize = 2,
            Seconds = 0, ColumnCount = 6000000, Timestamp = 1500000000\<rparr>,
           \<lparr>ResultName = ''1.1'', Iterations = 1, Concurrency = 32, BatchSize = 4,
            Seconds = 0, ColumnCount = 6000000, Timestamp = 1500000000\<rparr>,
           \<lparr>ResultName = ''1.1'', Iterations = 1, Concurrency = 32, BatchSize = 8,
            Seconds = 0, ColumnCount = 6000000, Timestamp = 1500000000\<rparr>]"
  by (simp add: HandleQuery_def getQuerySet_1_1 grid_envs_def run_1_1 run_mkdir_fails
      failed_result_def texts_NewQuerySet)

text \<open>
  Claim C8, amended. The sweep has no list parameters: it runs the QuerySet of the given
  name over the fixed concurrency values 8, 16, 32 and the fixed batch sizes 2, 4, 8.
  It performs one run per pair of the Cartesian product, one after the other, the outer
  loop over the concurrency and the inner loop over the batch size, and, when no run
  crashes, returns the nine summaries in that order (and only then). A run that
  completes normally carries its pair of concurrency and batch size and the QuerySet's
  iteration count; a run that fails carries 0 for the three and \<open>-1\<close> for the elapsed
  seconds.
\<close>

theorem grid_sweep_runs:
  "(HandleQuery sprintf envs s_concurrency s_batchSize qname ''grid'' = Inr rs)
     = (map Returned rs
          = map (\<lambda>(c, b). RunSumMultiBatch sprintf (envs c b) (getQuerySet qname) c b)
              (List.product [8, 16, 32] [2, 4, 8]))
   \<and> (HandleQuery sprintf envs s_concurrency s_batchSize qname ''grid'' = Inr rs \<longrightarrow>
        length rs = 9
      \<and> (\<forall>i<9. \<forall>c b. List.product [8, 16, 32] [2, 4, 8] ! i = (c, b) \<longrightarrow>
            (if LogWrote \<in> set (printed (rs ! i))
             then Concurrency (summary (rs ! i)) = c \<and> BatchSize (summary (rs ! i)) = b
                \<and> Iterations (summary (rs ! i)) = iterations (getQuerySet qname)
             else Concurrency (summary (rs ! i)) = 0 \<and> BatchSize (summary (rs ! i)) = 0
                \<and> Iterations (summary (rs ! i)) = 0 \<and> Seconds (summary (rs ! i)) = - 1)))"
proof -
  let ?run = "\<lambda>c b. RunSumMultiBatch sprintf (envs c b) (getQuerySet qname) c b"
  let ?pairs = "List.product [8 :: int, 16, 32] [2 :: int, 4, 8]"
  have eq: "(HandleQuery sprintf envs s_concurrency s_batchSize qname ''grid'' = Inr rs)
              = (map Returned rs = map (\<lambda>(c, b). ?run c b) ?pairs)"
  proof -
    have "HandleQuery sprintf envs s_concurrency s_batchSize qname ''grid''
            = grid_outer ?run [8, 16, 32] [2, 4, 8] []"
      by (simp add: HandleQuery_def Let_def del: grid_outer.simps grid_inner.simps)
    then show ?thesis
      by (simp only: grid_outer_Inr append_Nil simp_thms)
  qed
  have rest: "length rs = 9
      \<and> (\<forall>i<9. \<forall>c b. ?pairs ! i = (c, b) \<longrightarrow>
            (if LogWrote \<in> set (printed (rs ! i))
             then Concurrency (summary (rs ! i)) = c \<and> BatchSize (summary (rs ! i)) = b
                \<and> Iterations (summary (rs ! i)) = iterations (getQuerySet qname)
             else Concurrency (summary (rs ! i)) = 0 \<and> BatchSize (summary (rs ! i)) = 0
                \<and> Iterations (summary (rs ! i)) = 0 \<and> Seconds (summary (rs ! i)) = - 1))"
    if h: "map Returned rs = map (\<lambda>(c, b). ?run c b) ?pairs"
  proof -
    have "length (map Returned rs) = length ?pairs" by (simp only: h length_map)
    then have len: "length rs = 9" by simp
    have each: "?run c b = Returned (rs ! i)" if "i < 9" "?pairs ! i = (c, b)" for i c b
    proof -
      have "map Returned rs ! i = map (\<lambda>(c, b). ?run c b) ?pairs ! i" by (simp only: h)
      moreover have "i < length ?pairs" using that(1) by simp
      ultimately show ?thesis
        using that len by (simp only: nth_map) simp
    qed
    show ?thesis
    proof (intro conjI allI impI)
      show "length rs = 9" by (rule len)
    next
      fix i c b
      assume i: "i < 9" and p: "?pairs ! i = (c, b)"
      from RunSumMultiBatch_summary [OF each [OF i p]]
      show "if LogWrote \<in> set (printed (rs ! i))
             then Concurrency (summary (rs ! i)) = c \<and> BatchSize (summary (rs ! i)) = b
                \<and> Iterations (summary (rs ! i)) = iterations (getQuerySet qname)
             else Concurrency (summary (rs ! i)) = 0 \<and> BatchSize (summary (rs ! i)) = 0
                \<and> Iterations (summary (rs ! i)) = 0 \<and> Seconds (summary (rs ! i)) = - 1"
        by (simp add: full_result_def failed_result_def split: if_splits)
    qed
  qed
  show ?thesis
    using eq rest by blast
qed

theorem grid_sweep_runs_witness:
  "HandleQuery Sprintf (\<lambda>c b. short_env) 1 1 ''1.1'' ''grid''
     = Inr
       [\<lparr>summary = \<lparr>ResultName = ''1.1'', Iterations = 1, Concurrency = 8, BatchSize = 2,
                      Seconds = 0, ColumnCount = 6000000, Timestamp = 1500000000\<rparr>,
         printed = [LogWrote], written = [(IfaceInt 7, [IfaceInt 1993])]\<rparr>,
        \<lparr>summary = \<lparr>ResultName = ''1.1'', Iterations = 1, Concurrency = 8, BatchSize = 4,
                      Seconds = 0, ColumnCount = 6000000, Timestamp = 1500000000\<rparr>,
         printed = [LogWrote], written = [(IfaceInt 7, [IfaceInt 1993])]\<rparr>,
        \<lparr>summary = \<lparr>ResultName = ''1.1'', Iterations = 1, Concurrency = 8, BatchSize = 8,
                      Seconds = 0, ColumnCount = 6000000, Timestamp = 1500000000\<rparr>,
         printed = [LogWrote], written = [(IfaceInt 7, [IfaceInt 1993])]\<rparr>,
        \<lparr>summary = \<lparr>ResultName = ''1.1'', Iterations = 1, Concurrency = 16, BatchSize = 2,
                      Seconds = 0, ColumnCount = 6000000, Timestamp = 1500000000\<rparr>,
         printed = [LogWrote], written = [(IfaceInt 7, [IfaceInt 1993])]\<rparr>,
        \<lparr>summary = \<lparr>ResultName = ''1.1'', Iterations = 1, Concurrency = 16, BatchSize = 4,
                      Seconds = 0, ColumnCount = 6000000, Timestamp = 1500000000\<rparr>,
         printed = [LogWrote], written = [(IfaceInt 7, [IfaceInt 1993])]\<rparr>,
        \<lparr>summary = \<lparr>ResultName = ''1.1'', Iterations = 1, Concurrency = 16, BatchSize = 8,
                      Seconds = 0, ColumnCount = 6000000, Timestamp = 1500000000\<rparr>,
         printed = [LogWrote], written = [(IfaceInt 7, [IfaceInt 1993])]\<rparr>,
        \<lparr>summary = \<lparr>ResultName = ''1.1'', Iterations = 1, Concurrency = 32, BatchSize = 2,
                      Seconds = 0, ColumnCount = 6000000, Timestamp = 1500000000\<rparr>,
         printed = [LogWrote], written = [(IfaceInt 7, [IfaceInt 1993])]\<rparr>,
        \<lparr>summary = \<lparr>ResultName = ''1.1'', Iterations = 1, Concurrency = 32, BatchSize = 4,
                      Seconds = 0, ColumnCount = 6000000, Timestamp = 1500000000\<rparr>,
         printed = [LogWrote], written = [(IfaceInt 7, [IfaceInt 1993])]\<rparr>,
        \<lparr>summary = \<lparr>ResultName = ''1.1'', Iterations = 1, Concurrency = 32, BatchSize = 8,
                      Seconds = 0, ColumnCount = 6000000, Timestamp = 1500000000\<rparr>,
         printed = [LogWrote], written = [(IfaceInt 7, [IfaceInt 1993])]\<rparr>]
   \<and> iterations (getQuerySet ''1.1'') = 1"
proof -
  let ?RS = "[\<lparr>summary = \<lparr>ResultName = ''1.1'', Iterations = 1, Concurrency = 8, BatchSize = 2,
                      Seconds = 0, ColumnCount = 6000000, Timestamp = 1500000000\<rparr>,
         printed = [LogWrote], written = [(IfaceInt 7, [IfaceInt 1993])]\<rparr>,
        \<lparr>summary = \<lparr>ResultName = ''1.1'', Iterations = 1, Concurrency = 8, BatchSize = 4,
                      Seconds = 0, ColumnCount = 6000000, Timestamp = 1500000000\<rparr>,
         printed = [LogWrote], written = [(IfaceInt 7, [IfaceInt 1993])]\<rparr>,
        \<lparr>summary = \<lparr>ResultName = ''1.1'', Iterations = 1, Concurrency = 8, BatchSize = 8,
                      Seconds = 0, ColumnCount = 6000000, Timestamp = 1500000000\<rparr>,
         printed = [LogWrote], written = [(IfaceInt 7, [IfaceInt 1993])]\<rparr>,
        \<lparr>summary = \<lparr>ResultName = ''1.1'', Iterations = 1, Concurrency = 16, BatchSize = 2,
                      Seconds = 0, ColumnCount = 6000000, Timestamp = 1500000000\<rparr>,
         printed = [LogWrote], written = [(IfaceInt 7, [IfaceInt 1993])]\<rparr>,
        \<lparr>summary = \<lparr>ResultName = ''1.1'', Iterations = 1, Concurrency = 16, BatchSize = 4,
                      Seconds = 0, ColumnCount = 6000000, Timestamp = 1500000000\<rparr>,
         printed = [LogWrote], written = [(IfaceInt 7, [IfaceInt 1993])]\<rparr>,
        \<lparr>summary = \<lparr>ResultName = ''1.1'', Iterations = 1, Concurrency = 16, BatchSize = 8,
                      Seconds = 0, ColumnCount = 6000000, Timestamp = 1500000000\<rparr>,
         printed = [LogWrote], written = [(IfaceInt 7, [IfaceInt 1993])]\<rparr>,
        \<lparr>summary = \<lparr>ResultName = ''1.1'', Iterations = 1, Concurrency = 32, BatchSize = 2,
                      Seconds = 0, ColumnCount = 6000000, Timestamp = 1500000000\<rparr>,
         printed = [LogWrote], written = [(IfaceInt 7, [IfaceInt 1993])]\<rparr>,
        \<lparr>summary = \<lparr>ResultName = ''1.1'', Iterations = 1, Concurrency = 32, BatchSize = 4,
                      Seconds = 0, ColumnCount = 6000000, Timestamp = 1500000000\<rparr>,
         printed = [LogWrote], written = [(IfaceInt 7, [IfaceInt 1993])]\<rparr>,
        \<lparr>summary = \<lparr>ResultName = ''1.1'', Iterations = 1, Concurrency = 32, BatchSize = 8,
                      Seconds = 0, ColumnCount = 6000000, Timestamp = 1500000000\<rparr>,
         printed = [LogWrote], written = [(IfaceInt 7, [IfaceInt 1993])]\<rparr>]"
  let ?pairs = "List.product [8 :: int, 16, 32] [2 :: int, 4, 8]"
  have m: "map Returned ?RS
             = map (\<lambda>(c, b). RunSumMultiBatch Sprintf short_env (getQuerySet ''1.1'') c b) ?pairs"
    by (simp add: getQuerySet_1_1 run_1_1)
  note t = grid_sweep_runs [of Sprintf "\<lambda>c b. short_env" 1 1 "''1.1''" ?RS]
  from t have "(HandleQuery Sprintf (\<lambda>c b. short_env) 1 1 ''1.1'' ''grid'' = Inr ?RS)
     = (map Returned ?RS
          = map (\<lambda>(c, b). RunSumMultiBatch Sprintf short_env (getQuerySet ''1.1'') c b) ?pairs)"
    by (rule conjunct1)
  then have h: "HandleQuery Sprintf (\<lambda>c b. short_env) 1 1 ''1.1'' ''grid'' = Inr ?RS"
    using m by (rule iffD2)
  from t have "HandleQuery Sprintf (\<lambda>c b. short_env) 1 1 ''1.1'' ''grid'' = Inr ?RS \<longrightarrow>
        length ?RS = 9
      \<and> (\<forall>i<9. \<forall>c b. ?pairs ! i = (c, b) \<longrightarrow>
            (if LogWrote \<in> set (printed (?RS ! i))
             then Concurrency (summary (?RS ! i)) = c \<and> BatchSize (summary (?RS ! i)) = b
                \<and> Iterations (summary (?RS ! i)) = iterations (getQuerySet ''1.1'')
             else Concurrency (summary (?RS ! i)) = 0 \<and> BatchSize (summary (?RS ! i)) = 0
                \<and> Iterations (summary (?RS ! i)) = 0 \<and> Seconds (summary (?RS ! i)) = - 1))"
    by (rule conjunct2)
  then have "length ?RS = 9
      \<and> (\<forall>i<9. \<forall>c b. ?pairs ! i = (c, b) \<longrightarrow>
            (if LogWrote \<in> set (printed (?RS ! i))
             then Concurrency (summary (?RS ! i)) = c \<and> BatchSize (summary (?RS ! i)) = b
                \<and> Iterations (summary (?RS ! i)) = iterations (getQuerySet ''1.1'')
             else Concurrency (summary (?RS ! i)) = 0 \<and> BatchSize (summary (?RS ! i)) = 0
                \<and> Iterations (summary (?RS ! i)) = 0 \<and> Seconds (summary (?RS ! i)) = - 1))"
    using h by (rule mp)
  then have "\<forall>i<9. \<forall>c b. ?pairs ! i = (c, b) \<longrightarrow>
            (if LogWrote \<in> set (printed (?RS ! i))
             then Concurrency (summary (?RS ! i)) = c \<and> BatchSize (summary (?RS ! i)) = b
                \<and> Iterations (summary (?RS ! i)) = iterations (getQuerySet ''1.1'')
             else Concurrency (summary (?RS ! i)) = 0 \<and> BatchSize (summary (?RS ! i)) = 0
                \<and> Iterations (summary (?RS ! i)) = 0 \<and> Seconds (summary (?RS ! i)) = - 1)"
    by (rule conjunct2)
  then have "(4 :: nat) < 9 \<longrightarrow> (\<forall>c b. ?pairs ! 4 = (c, b) \<longrightarrow>
            (if LogWrote \<in> set (printed (?RS ! 4))
             then Concurrency (summary (?RS ! 4)) = c \<and> BatchSize (summary (?RS ! 4)) = b
                \<and> Iterations (summary (?RS ! 4)) = iterations (getQuerySet ''1.1'')
             else Concurrency (summary (?RS ! 4)) = 0 \<and> BatchSize (summary (?RS ! 4)) = 0
                \<and> Iterations (summary (?RS ! 4)) = 0 \<and> Seconds (summary (?RS ! 4)) = - 1))"
    by (rule spec)
  moreover have "(4 :: nat) < 9" by simp
  ultimately have "\<forall>c b. ?pairs ! 4 = (c, b) \<longrightarrow>
            (if LogWrote \<in> set (printed (?RS ! 4))
             then Concurrency (summary (?RS ! 4)) = c \<and> BatchSize (summary (?RS ! 4)) = b
                \<and> Iterations (summary (?RS ! 4)) = iterations (getQuerySet ''1.1'')
             else Concurrency (summary (?RS ! 4)) = 0 \<and> BatchSize (summary (?RS ! 4)) = 0
                \<and> Iterations (summary (?RS ! 4)) = 0 \<and> Seconds (summary (?RS ! 4)) = - 1)"
    by (rule mp)
  then have "\<forall>b. ?pairs ! 4 = (16, b) \<longrightarrow>
            (if LogWrote \<in> set (printed (?RS ! 4))
             then Concurrency (summary (?RS ! 4)) = 16 \<and> BatchSize (summary (?RS ! 4)) = b
                \<and> Iterations (summary (?RS ! 4)) = iterations (getQuerySet ''1.1'')
             else Concurrency (summary (?RS ! 4)) = 0 \<and> BatchSize (summary (?RS ! 4)) = 0
                \<and> Iterations (summary (?RS ! 4)) = 0 \<and> Seconds (summary (?RS ! 4)) = - 1)"
    by (rule spec)
  then have "?pairs ! 4 = (16, 4) \<longrightarrow>
            (if LogWrote \<in> set (printed (?RS ! 4))
             then Concurrency (summary (?RS ! 4)) = 16 \<and> BatchSize (summary (?RS ! 4)) = 4
                \<and> Iterations (summary (?RS ! 4)) = iterations (getQuerySet ''1.1'')
             else Concurrency (summary (?RS ! 4)) = 0 \<and> BatchSize (summary (?RS ! 4)) = 0
                \<and> Iterations (summary (?RS ! 4)) = 0 \<and> Seconds (summary (?RS ! 4)) = - 1)"
    by (rule spec)
  then have it: "iterations (getQuerySet ''1.1'') = 1" by simp
  from h it show ?thesis by (rule conjI)
qed

end
